theory Spec2Isabelle
  imports Main "HOL-Library.AList"
begin

section \<open>Interpreter validation (server/validation/interpreter.go)\<close>

text \<open>
  Modelled from the spec: the constants \<open>CmdShell\<close>, \<open>PowerShell\<close> and \<open>Tacoscript\<close> of
  package \<open>share\<close>, which is not among the source files. The spec names the closed set
  \<open>{cmd, powershell, tacoscript}\<close>, and the error text expected by the API test
  (\<open>[cmd powershell tacoscript]\<close>) fixes the values and their order.
\<close>

definition CmdShell :: string where
  "CmdShell = ''cmd''"

definition PowerShell :: string where
  "PowerShell = ''powershell''"

definition Tacoscript :: string where
  "Tacoscript = ''tacoscript''"

definition validInputInterpreter :: "string list" where
  "validInputInterpreter = [CmdShell, PowerShell, Tacoscript]"

text \<open>A Go \<open>error\<close> result: \<open>None\<close> is \<open>nil\<close>, \<open>Some msg\<close> an error with that message.\<close>

type_synonym error = "string option"

text \<open>\<open>fmt.Sprintf("%s", xs)\<close> of a string slice: the elements separated by blanks, in brackets.\<close>

fun joinBlank :: "string list \<Rightarrow> string" where
  "joinBlank [] = []"
| "joinBlank [x] = x"
| "joinBlank (x # y # ys) = x @ '' '' @ joinBlank (y # ys)"

definition sprintStrings :: "string list \<Rightarrow> string" where
  "sprintStrings xs = ''['' @ joinBlank xs @ '']''"

text \<open>The \<open>for _, v := range validInputInterpreter\<close> loop with its early return.\<close>

fun interpreterListed :: "string \<Rightarrow> string list \<Rightarrow> bool" where
  "interpreterListed interpreter [] = False"
| "interpreterListed interpreter (v # vs) =
     (if interpreter = v then True else interpreterListed interpreter vs)"

definition ValidateInterpreter :: "string \<Rightarrow> bool \<Rightarrow> error" where
  "ValidateInterpreter interpreter isScript =
     (if interpreter = '''' then None
      else if \<not> isScript \<and> interpreter = Tacoscript then
        Some (Tacoscript @ '' interpreter can't be used for commands execution'')
      else if interpreterListed interpreter validInputInterpreter then None
      else Some (''expected interpreter to be one of: '' @ sprintStrings validInputInterpreter
                 @ '', actual: '' @ interpreter))"

section \<open>Client registry (server/clients/cr.go)\<close>

subsection \<open>Data\<close>

text \<open>
  Instants and durations are integers (nanoseconds), as \<open>time.Time\<close> and
  \<open>time.Duration\<close> are compared. The clock \<open>now()\<close> is an argument of every operation
  that reads it.
\<close>

type_synonym time = int
type_synonym duration = int

text \<open>
  The \<open>Client\<close> struct with the fields the registry reads; \<open>DisconnectedAt\<close> is a
  pointer, \<open>None\<close> when the client is connected.
\<close>

record Client =
  ID :: string
  ClientAuthID :: string
  Name :: string
  Tags :: "string list"
  AllowedUserGroups :: "string list"
  DisconnectedAt :: "time option"

text \<open>The \<open>User\<close> interface: its two getters.\<close>

record User =
  IsAdmin :: bool
  GetGroups :: "string list"

text \<open>\<open>query.FilterOption\<close>: a column and the values accepted for it.\<close>

record FilterOption =
  Column :: string
  Values :: "string list"

text \<open>
  The \<open>ClientProvider\<close> interface (sqlite.go). The database behind it is a state of type
  \<open>'p\<close>; each method returns its error and the state it leaves.
\<close>

record 'p ClientProvider =
  providerSave :: "Client \<Rightarrow> 'p \<Rightarrow> error \<times> 'p"
  providerDelete :: "string \<Rightarrow> 'p \<Rightarrow> error \<times> 'p"
  providerDeleteObsolete :: "time \<Rightarrow> 'p \<Rightarrow> error \<times> 'p"

text \<open>
  \<open>ClientRepository\<close>. The Go map \<open>clients\<close> is an association list: a \<open>range\<close> loop
  visits the entries in list order, which stands for the arbitrary order of one iteration.
  \<open>provider\<close> is \<open>None\<close> for a nil provider; \<open>store\<close> is the state behind it. The mutex
  and the logger carry no data.
\<close>

record 'p ClientRepository =
  clients :: "(string \<times> Client) list"
  KeepLostClients :: "duration option"
  provider :: "'p ClientProvider option"
  store :: 'p

text \<open>
  What the registry calls from outside the source files: \<open>Client.HasAccess\<close>,
  \<open>json.Marshal\<close> of a client and \<open>json.Unmarshal\<close> into a map of values of type
  \<open>'j\<close>, \<open>fmt.Sprint\<close> of such a value, and \<open>regexp.Compile\<close> with
  \<open>Regexp.MatchString\<close> on compiled expressions of type \<open>'r\<close>.
\<close>

record ('j, 'r) Env =
  HasAccess :: "Client \<Rightarrow> string list \<Rightarrow> bool"
  jsonMarshal :: "Client \<Rightarrow> string \<times> error"
  jsonUnmarshal :: "string \<Rightarrow> (string \<rightharpoonup> 'j) \<times> error"
  Sprint :: "'j \<Rightarrow> string"
  regexpCompile :: "string \<Rightarrow> string + 'r"
  MatchString :: "'r \<Rightarrow> string \<Rightarrow> bool"

subsection \<open>Obsolete clients\<close>

text \<open>
  Modelled from the spec: \<open>Client.Obsolete\<close>, whose file (client.go) is not among the
  source files. The spec calls an agent obsolete when
  \<open>disconnected_at + keep_lost_clients < now\<close>; a connected client has no
  \<open>disconnected_at\<close>, and with a nil \<open>KeepLostClients\<close> there is no bound to exceed.
\<close>

definition Obsolete :: "time \<Rightarrow> Client \<Rightarrow> duration option \<Rightarrow> bool" where
  "Obsolete now client keep =
     (case keep of
        None \<Rightarrow> False
      | Some d \<Rightarrow> (case DisconnectedAt client of None \<Rightarrow> False | Some t \<Rightarrow> t + d < now))"

subsection \<open>Construction\<close>

text \<open>\<open>clients[initClients[i].ID] = initClients[i]\<close> for each initial client in turn.\<close>

fun initCache :: "Client list \<Rightarrow> (string \<times> Client) list \<Rightarrow> (string \<times> Client) list" where
  "initCache [] m = m"
| "initCache (c # cs) m = initCache cs (AList.update (ID c) c m)"

definition newClientRepositoryWithDB ::
  "Client list \<Rightarrow> duration option \<Rightarrow> 'p ClientProvider option \<Rightarrow> 'p \<Rightarrow> 'p ClientRepository" where
  "newClientRepositoryWithDB initClients keepLostClients prov st =
     \<lparr>clients = initCache initClients [], KeepLostClients = keepLostClients,
      provider = prov, store = st\<rparr>"

definition NewClientRepository :: "Client list \<Rightarrow> duration option \<Rightarrow> unit ClientRepository" where
  "NewClientRepository initClients keepLostClients =
     newClientRepositoryWithDB initClients keepLostClients None ()"

subsection \<open>Updates\<close>

definition Save :: "'p ClientRepository \<Rightarrow> Client \<Rightarrow> error \<times> 'p ClientRepository" where
  "Save s client =
     (case provider s of
        None \<Rightarrow> (None, s\<lparr>clients := AList.update (ID client) client (clients s)\<rparr>)
      | Some p \<Rightarrow>
          (case providerSave p client (store s) of
             (Some err, st) \<Rightarrow> (Some (''failed to save a client: '' @ err), s\<lparr>store := st\<rparr>)
           | (None, st) \<Rightarrow>
               (None, s\<lparr>store := st, clients := AList.update (ID client) client (clients s)\<rparr>)))"

definition Delete :: "'p ClientRepository \<Rightarrow> Client \<Rightarrow> error \<times> 'p ClientRepository" where
  "Delete s client =
     (case provider s of
        None \<Rightarrow> (None, s\<lparr>clients := AList.delete (ID client) (clients s)\<rparr>)
      | Some p \<Rightarrow>
          (case providerDelete p (ID client) (store s) of
             (Some err, st) \<Rightarrow> (Some (''failed to delete a client: '' @ err), s\<lparr>store := st\<rparr>)
           | (None, st) \<Rightarrow>
               (None, s\<lparr>store := st, clients := AList.delete (ID client) (clients s)\<rparr>)))"

text \<open>
  The loop of \<open>DeleteObsolete\<close>: \<open>todo\<close> holds the entries the iteration has not reached,
  \<open>m\<close> the map, \<open>deleted\<close> the clients evicted so far. \<open>delete(s.clients, client.ID)\<close>
  removes the key \<open>client.ID\<close>; an entry removed before it is reached is not visited.
\<close>

function deleteObsoleteLoop ::
  "time \<Rightarrow> duration option \<Rightarrow> (string \<times> Client) list \<Rightarrow> (string \<times> Client) list \<Rightarrow> Client list
     \<Rightarrow> (string \<times> Client) list \<times> Client list" where
  "deleteObsoleteLoop now keep [] m deleted = (m, deleted)"
| "deleteObsoleteLoop now keep (kc # todo) m deleted =
     (if Obsolete now (snd kc) keep
      then deleteObsoleteLoop now keep (AList.delete (ID (snd kc)) todo)
             (AList.delete (ID (snd kc)) m) (deleted @ [snd kc])
      else deleteObsoleteLoop now keep todo m deleted)"
  by pat_completeness auto
termination
  by (relation "measure (\<lambda>(now, keep, todo, m, deleted). length todo)")
     (auto simp: le_imp_less_Suc length_delete_le)

text \<open>\<open>DeleteObsolete\<close> returns the evicted clients (nil on a provider error) and its error.\<close>

definition DeleteObsolete ::
  "time \<Rightarrow> 'p ClientRepository \<Rightarrow> (Client list \<times> error) \<times> 'p ClientRepository" where
  "DeleteObsolete now s =
     (let run = (\<lambda>s'. case deleteObsoleteLoop now (KeepLostClients s') (clients s') (clients s') [] of
                        (m, deleted) \<Rightarrow> ((deleted, None), s'\<lparr>clients := m\<rparr>))
      in case provider s of
           None \<Rightarrow> run s
         | Some p \<Rightarrow>
             (case providerDeleteObsolete p now (store s) of
                (Some err, st) \<Rightarrow>
                  (([], Some (''failed to delete obsolete clients: '' @ err)), s\<lparr>store := st\<rparr>)
              | (None, st) \<Rightarrow> run (s\<lparr>store := st\<rparr>)))"

subsection \<open>Reads\<close>

fun getNonObsoleteLoop ::
  "time \<Rightarrow> duration option \<Rightarrow> (string \<times> Client) list \<Rightarrow> Client list \<Rightarrow> Client list" where
  "getNonObsoleteLoop now keep [] result = result"
| "getNonObsoleteLoop now keep (kc # todo) result =
     (if \<not> Obsolete now (snd kc) keep
      then getNonObsoleteLoop now keep todo (result @ [snd kc])
      else getNonObsoleteLoop now keep todo result)"

definition getNonObsolete :: "time \<Rightarrow> 'p ClientRepository \<Rightarrow> Client list \<times> error" where
  "getNonObsolete now s = (getNonObsoleteLoop now (KeepLostClients s) (clients s) [], None)"

definition Count :: "time \<Rightarrow> 'p ClientRepository \<Rightarrow> nat \<times> error" where
  "Count now s = (case getNonObsolete now s of (cs, err) \<Rightarrow> (length cs, err))"

fun getAllActiveLoop :: "(string \<times> Client) list \<Rightarrow> Client list \<Rightarrow> Client list" where
  "getAllActiveLoop [] result = result"
| "getAllActiveLoop (kc # todo) result =
     (if DisconnectedAt (snd kc) = None then getAllActiveLoop todo (result @ [snd kc])
      else getAllActiveLoop todo result)"

definition GetAllActive :: "'p ClientRepository \<Rightarrow> Client list" where
  "GetAllActive s = getAllActiveLoop (clients s) []"

definition CountActive :: "'p ClientRepository \<Rightarrow> nat \<times> error" where
  "CountActive s = (length (GetAllActive s), None)"

fun countDisconnectedLoop :: "Client list \<Rightarrow> nat \<Rightarrow> nat" where
  "countDisconnectedLoop [] n = n"
| "countDisconnectedLoop (cur # rest) n =
     (if DisconnectedAt cur \<noteq> None then countDisconnectedLoop rest (n + 1)
      else countDisconnectedLoop rest n)"

definition CountDisconnected :: "time \<Rightarrow> 'p ClientRepository \<Rightarrow> nat \<times> error" where
  "CountDisconnected now s =
     (case getNonObsolete now s of
        (all, Some err) \<Rightarrow> (0, Some err)
      | (all, None) \<Rightarrow> (countDisconnectedLoop all 0, None))"

text \<open>\<open>GetByID\<close>: \<open>None\<close> is the nil client.\<close>

definition GetByID :: "time \<Rightarrow> 'p ClientRepository \<Rightarrow> string \<Rightarrow> Client option \<times> error" where
  "GetByID now s id' =
     (case map_of (clients s) id' of
        None \<Rightarrow> (None, None)
      | Some client \<Rightarrow>
          (if Obsolete now client (KeepLostClients s) then (None, None) else (Some client, None)))"

definition GetActiveByID :: "'p ClientRepository \<Rightarrow> string \<Rightarrow> Client option \<times> error" where
  "GetActiveByID s id' =
     (case map_of (clients s) id' of
        None \<Rightarrow> (None, None)
      | Some client \<Rightarrow>
          (if DisconnectedAt client \<noteq> None then (None, None) else (Some client, None)))"

definition GetAll :: "time \<Rightarrow> 'p ClientRepository \<Rightarrow> Client list \<times> error" where
  "GetAll now s = getNonObsolete now s"

fun byClientAuthIDLoop :: "string \<Rightarrow> Client list \<Rightarrow> Client list \<Rightarrow> Client list" where
  "byClientAuthIDLoop clientAuthID [] res = res"
| "byClientAuthIDLoop clientAuthID (v # vs) res =
     (if ClientAuthID v = clientAuthID then byClientAuthIDLoop clientAuthID vs (res @ [v])
      else byClientAuthIDLoop clientAuthID vs res)"

definition GetAllByClientAuthID :: "time \<Rightarrow> 'p ClientRepository \<Rightarrow> string \<Rightarrow> Client list" where
  "GetAllByClientAuthID now s clientAuthID =
     byClientAuthIDLoop clientAuthID (fst (GetAll now s)) []"

subsection \<open>Filters\<close>

definition clientToMap :: "('j, 'r) Env \<Rightarrow> Client \<Rightarrow> (string \<rightharpoonup> 'j) \<times> error" where
  "clientToMap env cl =
     (case jsonMarshal env cl of
        (clientBytes, Some err) \<Rightarrow> (Map.empty, Some err)
      | (clientBytes, None) \<Rightarrow> jsonUnmarshal env clientBytes)"

definition backslash :: char where
  "backslash = CHR 0x5C"

definition star :: char where
  "star = CHR ''*''"

text \<open>
  \<open>regx.MatchString(filterValue)\<close> for the fixed expression \<open>[^\\]\*+\<close>: somewhere in
  the value a character other than a backslash is followed by a star. (A backslash is one
  byte and no part of a longer UTF-8 sequence, so bytes decide.)
\<close>

fun hasUnescapedWildCard :: "string \<Rightarrow> bool" where
  "hasUnescapedWildCard (c # d # rest) =
     ((c \<noteq> backslash \<and> d = star) \<or> hasUnescapedWildCard (d # rest))"
| "hasUnescapedWildCard rest = False"

text \<open>\<open>strings.ReplaceAll(s, old, new)\<close> for a one-byte \<open>old\<close>.\<close>

definition ReplaceAll :: "string \<Rightarrow> char \<Rightarrow> string \<Rightarrow> string" where
  "ReplaceAll s old new = concat (map (\<lambda>c. if c = old then new else [c]) s)"

text \<open>The loop over \<open>filter.Values\<close>; the message logged on a compile error is not modelled.\<close>

fun matchValuesLoop :: "('j, 'r) Env \<Rightarrow> string \<Rightarrow> string list \<Rightarrow> bool \<times> error" where
  "matchValuesLoop env clientFieldValueToMatchStr [] = (False, None)"
| "matchValuesLoop env clientFieldValueToMatchStr (filterValue # rest) =
     (if \<not> hasUnescapedWildCard filterValue then
        (if filterValue = clientFieldValueToMatchStr then (True, None)
         else matchValuesLoop env clientFieldValueToMatchStr rest)
      else
        (case regexpCompile env (ReplaceAll filterValue star ''.*'') of
           Inl err \<Rightarrow>
             (if filterValue = clientFieldValueToMatchStr then (True, None)
              else matchValuesLoop env clientFieldValueToMatchStr rest)
         | Inr filterValueRegex \<Rightarrow>
             (if MatchString env filterValueRegex clientFieldValueToMatchStr then (True, None)
              else matchValuesLoop env clientFieldValueToMatchStr rest)))"

definition clientMatchesFilter :: "('j, 'r) Env \<Rightarrow> Client \<Rightarrow> FilterOption \<Rightarrow> bool \<times> error" where
  "clientMatchesFilter env cl filter' =
     (case clientToMap env cl of
        (clientMap, Some err) \<Rightarrow> (False, Some err)
      | (clientMap, None) \<Rightarrow>
          (case clientMap (Column filter') of
             None \<Rightarrow> (False, Some (''unsupported filter column: '' @ Column filter'))
           | Some clientFieldValueToMatch \<Rightarrow>
               matchValuesLoop env (Sprint env clientFieldValueToMatch) (Values filter')))"

fun clientMatchesFilters :: "('j, 'r) Env \<Rightarrow> Client \<Rightarrow> FilterOption list \<Rightarrow> bool \<times> error" where
  "clientMatchesFilters env cl [] = (True, None)"
| "clientMatchesFilters env cl (f # fs) =
     (case clientMatchesFilter env cl f of
        (matches, Some err) \<Rightarrow> (False, Some err)
      | (matches, None) \<Rightarrow> (if \<not> matches then (False, None) else clientMatchesFilters env cl fs))"

fun getNonObsoleteFilteredLoop ::
  "('j, 'r) Env \<Rightarrow> time \<Rightarrow> duration option \<Rightarrow> User \<Rightarrow> FilterOption list
     \<Rightarrow> (string \<times> Client) list \<Rightarrow> Client list \<Rightarrow> Client list \<times> error" where
  "getNonObsoleteFilteredLoop env now keep user filterOptions [] result = (result, None)"
| "getNonObsoleteFilteredLoop env now keep user filterOptions (kc # todo) result =
     (if Obsolete now (snd kc) keep
      then getNonObsoleteFilteredLoop env now keep user filterOptions todo result
      else if \<not> IsAdmin user \<and> \<not> HasAccess env (snd kc) (GetGroups user)
      then getNonObsoleteFilteredLoop env now keep user filterOptions todo result
      else
        (case clientMatchesFilters env (snd kc) filterOptions of
           (matches, Some err) \<Rightarrow> (result, Some err)
         | (matches, None) \<Rightarrow>
             (if matches
              then getNonObsoleteFilteredLoop env now keep user filterOptions todo (result @ [snd kc])
              else getNonObsoleteFilteredLoop env now keep user filterOptions todo result)))"

definition getNonObsoleteFiltered ::
  "('j, 'r) Env \<Rightarrow> time \<Rightarrow> 'p ClientRepository \<Rightarrow> User \<Rightarrow> FilterOption list \<Rightarrow> Client list \<times> error" where
  "getNonObsoleteFiltered env now s user filterOptions =
     getNonObsoleteFilteredLoop env now (KeepLostClients s) user filterOptions (clients s) []"

definition GetUserClients ::
  "('j, 'r) Env \<Rightarrow> time \<Rightarrow> 'p ClientRepository \<Rightarrow> User \<Rightarrow> FilterOption list \<Rightarrow> Client list \<times> error" where
  "GetUserClients env now s user filterOptions = getNonObsoleteFiltered env now s user filterOptions"

subsection \<open>The cache as a Go map keyed by client id\<close>

text \<open>
  A Go map holds one entry for a key, and every writer of the cache (the constructor and
  \<open>Save\<close>) stores a client under its own \<open>ID\<close>.
\<close>

definition cacheInv :: "(string \<times> Client) list \<Rightarrow> bool" where
  "cacheInv m = (distinct (map fst m) \<and> (\<forall>kc \<in> set m. ID (snd kc) = fst kc))"

subsection \<open>Example registries\<close>

text \<open>
  A client disconnected at instant 0, a connected client, a provider whose first call fails
  (a locked database) and whose later calls succeed, and two registries built by the
  constructors: one on that provider, one without a provider.
\<close>

definition staleClient :: Client where
  "staleClient = \<lparr>ID = ''c1'', ClientAuthID = ''auth1'', Name = ''lost'', Tags = [],
     AllowedUserGroups = [], DisconnectedAt = Some 0\<rparr>"

definition liveClient :: Client where
  "liveClient = \<lparr>ID = ''c2'', ClientAuthID = ''auth1'', Name = ''live'', Tags = [],
     AllowedUserGroups = [], DisconnectedAt = None\<rparr>"

definition flakyProvider :: "bool ClientProvider" where
  "flakyProvider =
     \<lparr>providerSave = (\<lambda>c up. if up then (None, up) else (Some ''database is locked'', True)),
      providerDelete = (\<lambda>k up. if up then (None, up) else (Some ''database is locked'', True)),
      providerDeleteObsolete =
        (\<lambda>now up. if up then (None, up) else (Some ''database is locked'', True))\<rparr>"

definition flakyRepo :: "bool ClientRepository" where
  "flakyRepo = newClientRepositoryWithDB [staleClient, liveClient] (Some 10) (Some flakyProvider) False"

definition memoryRepo :: "unit ClientRepository" where
  "memoryRepo = NewClientRepository [staleClient, liveClient] (Some 10)"

text \<open>
  An environment in which every client is accessible, a client marshals to its id, the
  unmarshalled map has the one column \<open>id\<close>, and a compiled expression matches the
  value equal to its text.
\<close>

definition plainEnv :: "(string, string) Env" where
  "plainEnv =
     \<lparr>HasAccess = (\<lambda>c groups. True),
      jsonMarshal = (\<lambda>c. (ID c, None)),
      jsonUnmarshal = (\<lambda>b. ([''id'' \<mapsto> b], None)),
      Sprint = (\<lambda>v. v),
      regexpCompile = (\<lambda>p. Inr p),
      MatchString = (\<lambda>r v. r = v)\<rparr>"

section \<open>Regular expressions over filter values\<close>

text \<open>
  \<open>regexp.Compile\<close> and \<open>MatchString\<close> belong to Go's library. This is the part of them
  that filter values made of ordinary ASCII characters, dots, stars and escaped punctuation
  reach: an expression is a sequence of atoms (a literal byte, or \<open>.\<close> for any character
  but a newline), each taken once or repeated by a postfix \<open>*\<close>. Expressions beyond
  that part (classes, groups, alternation, other repetitions, bytes above 127) are not
  modelled: this engine rejects them, and no statement below depends on its answer there.
\<close>

datatype rxAtom = RLit char | RAny

datatype rxItem = Once rxAtom | Many rxAtom

definition rxPunct :: "char \<Rightarrow> bool" where
  "rxPunct c = (c = backslash \<or> c \<in> set ''.+*?()|[]{}^$'')"

definition rxOrdinary :: "char \<Rightarrow> bool" where
  "rxOrdinary c = (\<not> rxPunct c \<and> of_char c < (128 :: nat))"

fun rxScan :: "string \<Rightarrow> rxItem list \<Rightarrow> string + rxItem list" where
  "rxScan [] acc = Inr (rev acc)"
| "rxScan (c # rest) acc =
     (if c = star then
        (case acc of
           [] \<Rightarrow> Inl ''missing argument to repetition operator''
         | Once a # acc' \<Rightarrow> rxScan rest (Many a # acc')
         | Many a # acc' \<Rightarrow> Inl ''invalid nested repetition operator'')
      else if c = backslash then
        (case rest of
           [] \<Rightarrow> Inl ''trailing backslash at end of expression''
         | d # rest' \<Rightarrow>
             if rxPunct d then rxScan rest' (Once (RLit d) # acc)
             else Inl ''escape outside the modelled fragment'')
      else if c = CHR ''.'' then rxScan rest (Once RAny # acc)
      else if rxOrdinary c then rxScan rest (Once (RLit c) # acc)
      else Inl ''operator outside the modelled fragment'')"

definition rxCompile :: "string \<Rightarrow> string + rxItem list" where
  "rxCompile expr = rxScan expr []"

text \<open>
  \<open>rxMatchHere\<close>: a match starts at the head of the string. \<open>rxMatchString\<close> is
  \<open>MatchString\<close>: a match starts somewhere in the string and need not reach its end.
\<close>

fun rxAtomOk :: "rxAtom \<Rightarrow> char \<Rightarrow> bool" where
  "rxAtomOk (RLit a) c = (a = c)"
| "rxAtomOk RAny c = (c \<noteq> CHR 0x0A)"

fun rxMatchHere :: "rxItem list \<Rightarrow> string \<Rightarrow> bool" where
  "rxMatchHere [] s = True"
| "rxMatchHere (Once a # items) [] = False"
| "rxMatchHere (Once a # items) (c # s) = (rxAtomOk a c \<and> rxMatchHere items s)"
| "rxMatchHere (Many a # items) [] = rxMatchHere items []"
| "rxMatchHere (Many a # items) (c # s) =
     (rxMatchHere items (c # s) \<or> (rxAtomOk a c \<and> rxMatchHere (Many a # items) s))"

fun rxMatchString :: "rxItem list \<Rightarrow> string \<Rightarrow> bool" where
  "rxMatchString items [] = rxMatchHere items []"
| "rxMatchString items (c # s) = (rxMatchHere items (c # s) \<or> rxMatchString items s)"

subsection \<open>Filter values as the spec words them\<close>

text \<open>
  The spec's reading of a filter value, for comparison with the code: the expression is
  anchored, so it has to match the entire field value, and a star counts as unescaped
  unless a backslash stands right before it, also when it leads the value. (The spec does
  not say what a value matches whose expression does not compile; the literal comparison
  of the code is kept.)
\<close>

fun rxMatchWhole :: "rxItem list \<Rightarrow> string \<Rightarrow> bool" where
  "rxMatchWhole [] s = (s = [])"
| "rxMatchWhole (Once a # items) [] = False"
| "rxMatchWhole (Once a # items) (c # s) = (rxAtomOk a c \<and> rxMatchWhole items s)"
| "rxMatchWhole (Many a # items) [] = rxMatchWhole items []"
| "rxMatchWhole (Many a # items) (c # s) =
     (rxMatchWhole items (c # s) \<or> (rxAtomOk a c \<and> rxMatchWhole (Many a # items) s))"

fun starUnescaped :: "char option \<Rightarrow> string \<Rightarrow> bool" where
  "starUnescaped prev [] = False"
| "starUnescaped prev (c # rest) =
     ((c = star \<and> prev \<noteq> Some backslash) \<or> starUnescaped (Some c) rest)"

definition containsUnescapedStar :: "string \<Rightarrow> bool" where
  "containsUnescapedStar v = starUnescaped None v"

definition specValueMatches :: "string \<Rightarrow> string \<Rightarrow> bool" where
  "specValueMatches filterValue field =
     (if containsUnescapedStar filterValue then
        (case rxCompile (ReplaceAll filterValue star ''.*'') of
           Inr r \<Rightarrow> rxMatchWhole r field
         | Inl err \<Rightarrow> filterValue = field)
      else filterValue = field)"

text \<open>
  An environment on that engine: every client is accessible, a client marshals to its id
  and the unmarshalled map has the one column \<open>id\<close>.
\<close>

definition regexpEnv :: "(string, rxItem list) Env" where
  "regexpEnv =
     \<lparr>HasAccess = (\<lambda>c groups. True),
      jsonMarshal = (\<lambda>c. (ID c, None)),
      jsonUnmarshal = (\<lambda>b. ([''id'' \<mapsto> b], None)),
      Sprint = (\<lambda>v. v),
      regexpCompile = rxCompile,
      MatchString = rxMatchString\<rparr>"

section \<open>Requests to a client (package comm)\<close>

text \<open>
  An error returned by \<open>SendRequestAndGetResponse\<close>: a plain error, or a \<open>ClientError\<close>
  wrapping what the client answered.
\<close>

datatype commError = PlainError string | ClientError string

fun errorText :: "commError \<Rightarrow> string" where
  "errorText (PlainError msg) = msg"
| "errorText (ClientError msg) = msg"

text \<open>
  \<open>ssh.Conn.SendRequest\<close> on a connection, as the function from the request type and the
  payload to the triple \<open>(ok, respBytes, err)\<close>; the JSON codec of the request type
  \<open>'q\<close> and of the response type \<open>'a\<close> with the names \<open>%T\<close> prints for them.
\<close>

type_synonym conn = "string \<Rightarrow> string \<Rightarrow> bool \<times> string \<times> error"

record ('q, 'a) Codec =
  marshalReq :: "'q \<Rightarrow> string \<times> error"
  reqTypeName :: string
  unmarshalResp :: "string \<Rightarrow> 'a option \<times> error"
  respTypeName :: string

text \<open>
  \<open>SendRequestAndGetResponse\<close>; the decoded response (written to \<open>successRespDest\<close>
  in Go) is returned beside the error. \<open>wantResp\<close> is \<open>successRespDest != nil\<close>.
\<close>

definition SendRequestAndGetResponse ::
  "('q, 'a) Codec \<Rightarrow> conn \<Rightarrow> string \<Rightarrow> 'q \<Rightarrow> bool \<Rightarrow> 'a option \<times> commError option" where
  "SendRequestAndGetResponse codec c reqType req wantResp =
     (case marshalReq codec req of
        (reqBytes, Some err) \<Rightarrow>
          (None, Some (PlainError (''failed to encode request '' @ reqTypeName codec @ '': '' @ err)))
      | (reqBytes, None) \<Rightarrow>
          (case c reqType reqBytes of
             (ok, respBytes, Some err) \<Rightarrow> (None, Some (PlainError (''failed to send request: '' @ err)))
           | (ok, respBytes, None) \<Rightarrow>
               if \<not> ok then (None, Some (ClientError (''client error: '' @ respBytes)))
               else if wantResp then
                 (case unmarshalResp codec respBytes of
                    (resp, Some err) \<Rightarrow>
                      (None, Some (ClientError
                         (''invalid client response format: failed to decode response into ''
                            @ respTypeName codec @ '': '' @ err)))
                  | (resp, None) \<Rightarrow> (resp, None))
               else (None, None)))"

section \<open>Command execution\<close>

text \<open>
  Modelled from the spec: the Job entity of the spec's data model (package models is not
  among the source files), with its status among running, successful, failed and unknown.
\<close>

datatype JobStatus = JobStatusRunning | JobStatusSuccessful | JobStatusFailed | JobStatusUnknown

record Job =
  JID :: string
  JobClientID :: string
  Command :: string
  Status :: JobStatus
  Error :: string
  PID :: "int option"

text \<open>
  Modelled from the spec: one client of a multi-client command, as the executor in api.go
  (not among the source files) meets it: its id, the fresh job id drawn for it, its
  connection, and the status its \<open>cmd_result\<close> (or the timeout) brings once the command
  was started.
\<close>

record Target =
  targetID :: string
  targetJID :: string
  targetConn :: conn
  targetOutcome :: JobStatus

text \<open>
  Modelled from the spec: the dispatch of one job, in the API layer (api.go), which is not
  among the source files. "The server assigns a fresh uuid jid, persists a running Job row,
  then issues \<open>run_cmd\<close>. If dispatch fails, Job becomes failed with the dispatch error."
  The result is the job as stored after the dispatch and whether the dispatch succeeded.
\<close>

definition newJob :: "string \<Rightarrow> Target \<Rightarrow> Job" where
  "newJob cmd t =
     \<lparr>JID = targetJID t, JobClientID = targetID t, Command = cmd,
      Status = JobStatusRunning, Error = [], PID = None\<rparr>"

text \<open>
  Modelled from the spec: \<open>createAndRunJob\<close> of api.go (not among the source files),
  after the sentences quoted above; the request goes out through
  \<open>SendRequestAndGetResponse\<close>.
\<close>

definition createAndRunJob :: "(Job, int) Codec \<Rightarrow> string \<Rightarrow> Target \<Rightarrow> Job \<times> bool" where
  "createAndRunJob codec cmd t =
     (let job = newJob cmd t
      in case SendRequestAndGetResponse codec (targetConn t) ''run_cmd'' job True of
           (resp, Some err) \<Rightarrow> (job\<lparr>Status := JobStatusFailed, Error := errorText err\<rparr>, False)
         | (resp, None) \<Rightarrow> (job\<lparr>PID := resp\<rparr>, True))"

text \<open>
  Modelled from the spec: the execution of a multi-client command (api.go, not among the
  source files). "Multi-client commands accept \<open>execute_concurrently\<close> and
  \<open>abort_on_error\<close>: sequential mode stops at first non-success when
  \<open>abort_on_error=true\<close>." In sequential mode the next client is served when the job
  of the current one has its final status; in concurrent mode every client is served.
  The result lists the jobs stored for the multi-client job.
\<close>

fun executeSequential :: "(Job, int) Codec \<Rightarrow> string \<Rightarrow> bool \<Rightarrow> Target list \<Rightarrow> Job list" where
  "executeSequential codec cmd abortOnErr [] = []"
| "executeSequential codec cmd abortOnErr (t # ts) =
     (case createAndRunJob codec cmd t of
        (job, False) \<Rightarrow>
          job # (if abortOnErr then [] else executeSequential codec cmd abortOnErr ts)
      | (job, True) \<Rightarrow>
          job\<lparr>Status := targetOutcome t\<rparr>
            # (if abortOnErr \<and> targetOutcome t \<noteq> JobStatusSuccessful then []
               else executeSequential codec cmd abortOnErr ts))"

text \<open>
  Modelled from the spec: the concurrent mode of the same executor (api.go, not among the
  source files); every client is served, whatever the others do.
\<close>

definition executeConcurrently :: "(Job, int) Codec \<Rightarrow> string \<Rightarrow> Target list \<Rightarrow> Job list" where
  "executeConcurrently codec cmd ts =
     map (\<lambda>t. case createAndRunJob codec cmd t of
                 (job, False) \<Rightarrow> job
               | (job, True) \<Rightarrow> job\<lparr>Status := targetOutcome t\<rparr>) ts"

text \<open>The job a client has in the store once its command was dispatched and has ended.\<close>

definition storedJob :: "(Job, int) Codec \<Rightarrow> string \<Rightarrow> Target \<Rightarrow> Job" where
  "storedJob codec cmd t =
     (case createAndRunJob codec cmd t of
        (job, False) \<Rightarrow> job
      | (job, True) \<Rightarrow> job\<lparr>Status := targetOutcome t\<rparr>)"

text \<open>The error \<open>conn.SendRequest\<close> returns when \<open>run_cmd\<close> is sent for a client's job.\<close>

definition sendError :: "(Job, int) Codec \<Rightarrow> string \<Rightarrow> Target \<Rightarrow> error" where
  "sendError codec cmd t =
     snd (snd (targetConn t ''run_cmd'' (fst (marshalReq codec (newJob cmd t)))))"

text \<open>
  Modelled from the spec: the body of \<open>POST /api/v1/commands\<close>
  (\<open>client_ids\<close>, \<open>command\<close>, \<open>execute_concurrently\<close>, \<open>abort_on_error\<close>); its
  type is declared in api.go, not among the source files.
\<close>

record MultiJobRequest =
  reqClientIDs :: "string list"
  reqCommand :: string
  reqConcurrent :: bool
  reqAbortOnErr :: bool

text \<open>
  Modelled from the spec: the handler of \<open>POST /api/v1/commands\<close>, with the lookup of
  its clients (api.go, not among the source files).
  A validation error is a 400 and an unknown client a 404, as the spec's error taxonomy
  has them; the checks are those the API test expects (a command, at least two clients,
  every client known and active). Otherwise the multi-client job is accepted with a 200
  carrying its id, and executed. \<open>resolve\<close> finds the active client of an id:
  \<open>None\<close> for an unknown id, \<open>Some None\<close> for a client that is not active. The
  result is the status code and the jobs stored for the multi-client job.
\<close>

fun resolveTargets :: "(string \<Rightarrow> Target option option) \<Rightarrow> string list \<Rightarrow> nat + Target list" where
  "resolveTargets resolve [] = Inr []"
| "resolveTargets resolve (cid # cids) =
     (case resolve cid of
        None \<Rightarrow> Inl 404
      | Some None \<Rightarrow> Inl 400
      | Some (Some t) \<Rightarrow>
          (case resolveTargets resolve cids of Inl code \<Rightarrow> Inl code | Inr ts \<Rightarrow> Inr (t # ts)))"

text \<open>
  Modelled from the spec: \<open>handlePostMultiClientCommand\<close> of api.go (not among the source
  files), as described above.
\<close>

definition handlePostMultiClientCommand ::
  "(Job, int) Codec \<Rightarrow> (string \<Rightarrow> Target option option) \<Rightarrow> MultiJobRequest \<Rightarrow> nat \<times> Job list" where
  "handlePostMultiClientCommand codec resolve req =
     (if reqCommand req = [] then (400, [])
      else if length (reqClientIDs req) < 2 then (400, [])
      else case resolveTargets resolve (reqClientIDs req) of
             Inl code \<Rightarrow> (code, [])
           | Inr ts \<Rightarrow>
               (200, if reqConcurrent req then executeConcurrently codec (reqCommand req) ts
                     else executeSequential codec (reqCommand req) (reqAbortOnErr req) ts))"

subsection \<open>Example requests\<close>

text \<open>
  A codec that always encodes and decodes; a connection on which sending fails, one on
  which it succeeds, and one on which the client answers with a failure; a client on each;
  and two sequential requests, one that goes on after an error and one that aborts.
\<close>

definition jobCodec :: "(Job, int) Codec" where
  "jobCodec =
     \<lparr>marshalReq = (\<lambda>job. (Command job, None)), reqTypeName = ''*models.Job'',
      unmarshalResp = (\<lambda>b. (Some 123, None)), respTypeName = ''*comm.RunCmdResponse''\<rparr>"

definition brokenConn :: conn where
  "brokenConn = (\<lambda>reqType payload. (False, [], Some ''send fake error''))"

definition goodConn :: conn where
  "goodConn = (\<lambda>reqType payload. (True, ''{}'', None))"

definition refusingConn :: conn where
  "refusingConn = (\<lambda>reqType payload. (False, ''fake failure msg'', None))"

definition target1 :: Target where
  "target1 = \<lparr>targetID = ''client-1'', targetJID = ''jid-1'', targetConn = brokenConn,
     targetOutcome = JobStatusSuccessful\<rparr>"

definition target2 :: Target where
  "target2 = \<lparr>targetID = ''client-2'', targetJID = ''jid-2'', targetConn = goodConn,
     targetOutcome = JobStatusSuccessful\<rparr>"

definition target5 :: Target where
  "target5 = \<lparr>targetID = ''client-5'', targetJID = ''jid-5'', targetConn = refusingConn,
     targetOutcome = JobStatusSuccessful\<rparr>"

definition resolveExample :: "string \<Rightarrow> Target option option" where
  "resolveExample cid =
     (if cid = ''client-1'' then Some (Some target1)
      else if cid = ''client-2'' then Some (Some target2)
      else if cid = ''client-3'' then Some None
      else if cid = ''client-5'' then Some (Some target5)
      else None)"

definition abortRequest :: MultiJobRequest where
  "abortRequest = \<lparr>reqClientIDs = [''client-2'', ''client-5'', ''client-2''],
     reqCommand = ''/bin/date'', reqConcurrent = False, reqAbortOnErr = True\<rparr>"

definition plainRequest :: MultiJobRequest where
  "plainRequest = \<lparr>reqClientIDs = [''client-2'', ''client-1'', ''client-2''],
     reqCommand = ''/bin/date'', reqConcurrent = False, reqAbortOnErr = False\<rparr>"

section \<open>Deleting a client auth\<close>







subsection \<open>Example state\<close>



section \<open>Properties of interpreter validation\<close>

lemma interpreterListed_iff: "interpreterListed i vs = (i \<in> set vs)"
  by (induction vs) auto

lemma ValidateInterpreter_nil_iff:
  "(ValidateInterpreter i s = None) =
     (i = '''' \<or> i = ''cmd'' \<or> i = ''powershell'' \<or> (i = ''tacoscript'' \<and> s))"
  by (auto simp: ValidateInterpreter_def interpreterListed_iff validInputInterpreter_def
      CmdShell_def PowerShell_def Tacoscript_def)

text \<open>
  C4 (as stated): every interpreter string outside \<open>{cmd, powershell, tacoscript}\<close> is
  rejected. The empty string is outside the set and is accepted, so the statement fails.
\<close>

theorem C4_counterexample:
  "'''' \<notin> {''cmd'', ''powershell'', ''tacoscript''} \<and> ValidateInterpreter '''' False = None"
  by (simp add: ValidateInterpreter_def)

text \<open>
  C4 (amended): ValidateInterpreter returns nil exactly for the empty string, for
  \<open>cmd\<close> and \<open>powershell\<close> with any \<open>isScript\<close>, and for \<open>tacoscript\<close> with
  \<open>isScript = true\<close>; so every non-empty string outside the set is an error, and so is
  \<open>tacoscript\<close> for an ad-hoc command.
\<close>

theorem C4_ValidateInterpreter_amended:
  "(ValidateInterpreter i s \<noteq> None) =
     (i \<noteq> '''' \<and> (i \<notin> {''cmd'', ''powershell'', ''tacoscript''} \<or> (i = ''tacoscript'' \<and> \<not> s)))"
  using ValidateInterpreter_nil_iff [of i s] by auto

theorem C4_ValidateInterpreter_amended_witness:
  "ValidateInterpreter ''bash'' True \<noteq> None \<and> ValidateInterpreter ''tacoscript'' False \<noteq> None
   \<and> ValidateInterpreter ''tacoscript'' True = None \<and> ValidateInterpreter ''cmd'' False = None"
  using C4_ValidateInterpreter_amended [of "''bash''" True]
    C4_ValidateInterpreter_amended [of "''tacoscript''" False]
    C4_ValidateInterpreter_amended [of "''tacoscript''" True]
    C4_ValidateInterpreter_amended [of "''cmd''" False]
  by simp

text \<open>
  C10: the empty interpreter string is accepted for commands and for scripts, although it is
  not a member of the valid interpreter set.
\<close>

theorem C10_empty_interpreter_accepted:
  "ValidateInterpreter '''' isScript = None \<and> '''' \<notin> set validInputInterpreter"
  by (simp add: ValidateInterpreter_def validInputInterpreter_def
      CmdShell_def PowerShell_def Tacoscript_def)

section \<open>Properties of the client registry\<close>

subsection \<open>The loops as list functions\<close>

lemma getNonObsoleteLoop_eq:
  "getNonObsoleteLoop now keep todo result =
     result @ filter (\<lambda>c. \<not> Obsolete now c keep) (map snd todo)"
  by (induction todo arbitrary: result) auto

lemma countDisconnectedLoop_eq:
  "countDisconnectedLoop cs n = n + length (filter (\<lambda>c. DisconnectedAt c \<noteq> None) cs)"
  by (induction cs arbitrary: n) auto

lemma filteredLoop_subset:
  "x \<in> set (fst (getNonObsoleteFilteredLoop env now keep user fo todo result)) \<Longrightarrow>
     x \<in> set result \<or> (x \<in> snd ` set todo \<and> \<not> Obsolete now x keep)"
proof (induction todo arbitrary: result)
  case Nil
  then show ?case by simp
next
  case (Cons kc todo)
  show ?case
  proof (cases "Obsolete now (snd kc) keep
      \<or> (\<not> IsAdmin user \<and> \<not> HasAccess env (snd kc) (GetGroups user))")
    case True
    then have "x \<in> set (fst (getNonObsoleteFilteredLoop env now keep user fo todo result))"
      using Cons.prems by (cases "Obsolete now (snd kc) keep") auto
    from Cons.IH [OF this] show ?thesis by auto
  next
    case False
    obtain matches err where m: "clientMatchesFilters env (snd kc) fo = (matches, err)"
      by (cases "clientMatchesFilters env (snd kc) fo")
    show ?thesis
    proof (cases err)
      case (Some e)
      then show ?thesis using Cons.prems False m by auto
    next
      case None
      show ?thesis
      proof (cases matches)
        case True
        then have "x \<in> set (fst (getNonObsoleteFilteredLoop env now keep user fo todo
                      (result @ [snd kc])))"
          using Cons.prems False m None by auto
        from Cons.IH [OF this] False show ?thesis by auto
      next
        case no: False
        then have "x \<in> set (fst (getNonObsoleteFilteredLoop env now keep user fo todo result))"
          using Cons.prems False m None by auto
        from Cons.IH [OF this] show ?thesis by auto
      qed
    qed
  qed
qed

lemma set_delete: "set (AList.delete k xs) = {kc \<in> set xs. fst kc \<noteq> k}"
  by (auto simp: AList.delete_eq)

lemma deleteObsoleteLoop_none:
  "\<forall>kc \<in> set todo. \<not> Obsolete now (snd kc) keep \<Longrightarrow>
     deleteObsoleteLoop now keep todo m deleted = (m, deleted)"
  by (induction todo) auto

lemma deleteObsoleteLoop_clean:
  assumes "\<forall>kc \<in> set todo. ID (snd kc) = fst kc"
    and "\<forall>kc \<in> set m. Obsolete now (snd kc) keep \<longrightarrow> kc \<in> set todo"
  shows "\<forall>kc \<in> set (fst (deleteObsoleteLoop now keep todo m deleted)). \<not> Obsolete now (snd kc) keep"
  using assms
proof (induction now keep todo m deleted rule: deleteObsoleteLoop.induct)
  case (1 now keep m deleted)
  then show ?case by auto
next
  case (2 now keep kc todo m deleted)
  show ?case
  proof (cases "Obsolete now (snd kc) keep")
    case True
    have k: "ID (snd kc) = fst kc" using 2(3) by simp
    have a: "\<forall>x \<in> set (AList.delete (ID (snd kc)) todo). ID (snd x) = fst x"
      using 2(3) by (auto simp: set_delete)
    have b: "\<forall>x \<in> set (AList.delete (ID (snd kc)) m).
               Obsolete now (snd x) keep \<longrightarrow> x \<in> set (AList.delete (ID (snd kc)) todo)"
      using 2(4) k by (auto simp: set_delete)
    from 2(1) [OF True a b] True show ?thesis by simp
  next
    case False
    have a: "\<forall>x \<in> set todo. ID (snd x) = fst x" using 2(3) by simp
    have b: "\<forall>x \<in> set m. Obsolete now (snd x) keep \<longrightarrow> x \<in> set todo"
      using 2(4) False by auto
    from 2(2) [OF False a b] False show ?thesis by simp
  qed
qed

lemma filter_delete_absent:
  "distinct (map fst xs) \<Longrightarrow> map_of xs k = Some c \<Longrightarrow> \<not> P c \<Longrightarrow>
     filter P (map snd (AList.delete k xs)) = filter P (map snd xs)"
proof (induction xs)
  case Nil
  then show ?case by simp
next
  case (Cons x xs)
  show ?case
  proof (cases "fst x = k")
    case True
    then have "snd x = c" using Cons.prems(2) by (cases x) auto
    moreover have "k \<notin> fst ` set xs" using Cons.prems(1) True by auto
    then have "AList.delete k xs = xs" by (simp add: delete_id image_iff)
    ultimately show ?thesis using True Cons.prems(3) by (cases x) (auto simp: )
  next
    case False
    then show ?thesis using Cons by (cases x) auto
  qed
qed

subsection \<open>The cache invariant is established and preserved\<close>

lemma set_update_subset: "set (AList.update k v m) \<subseteq> insert (k, v) (set m)"
  by (induction m) auto

lemma cacheInv_update: "cacheInv m \<Longrightarrow> cacheInv (AList.update (ID c) c m)"
  unfolding cacheInv_def using set_update_subset [of "ID c" c m]
  by (auto simp: distinct_update)

lemma cacheInv_delete: "cacheInv m \<Longrightarrow> cacheInv (AList.delete k m)"
  unfolding cacheInv_def by (auto simp: distinct_delete set_delete)

lemma cacheInv_initCache: "cacheInv m \<Longrightarrow> cacheInv (initCache cs m)"
  by (induction cs arbitrary: m) (auto simp: cacheInv_update)

lemma cacheInv_new: "cacheInv (clients (newClientRepositoryWithDB cs keep prov st))"
  using cacheInv_initCache [of "[]" cs] by (simp add: newClientRepositoryWithDB_def cacheInv_def)

lemma cacheInv_Save: "cacheInv (clients s) \<Longrightarrow> cacheInv (clients (snd (Save s c)))"
  by (auto simp: Save_def cacheInv_update split: option.splits prod.splits)

lemma cacheInv_Delete: "cacheInv (clients s) \<Longrightarrow> cacheInv (clients (snd (Delete s c)))"
  by (auto simp: Delete_def cacheInv_delete split: option.splits prod.splits)

lemma deleteObsoleteLoop_inv:
  "cacheInv m \<Longrightarrow> cacheInv (fst (deleteObsoleteLoop now keep todo m deleted))"
  by (induction now keep todo m deleted rule: deleteObsoleteLoop.induct)
     (auto simp: cacheInv_delete)

lemma cacheInv_DeleteObsolete:
  "cacheInv (clients s) \<Longrightarrow> cacheInv (clients (snd (DeleteObsolete now s)))"
  using deleteObsoleteLoop_inv [of "clients s" now "KeepLostClients s" "clients s" "[]"]
  by (auto simp: DeleteObsolete_def Let_def split: option.splits prod.splits)

subsection \<open>DeleteObsolete\<close>

lemma DeleteObsolete_clean:
  assumes "\<forall>kc \<in> set (clients s). \<not> Obsolete now (snd kc) (KeepLostClients s)"
  shows "fst (fst (DeleteObsolete now s)) = [] \<and> clients (snd (DeleteObsolete now s)) = clients s"
  using deleteObsoleteLoop_none [OF assms, of "clients s" "[]"]
  by (auto simp: DeleteObsolete_def Let_def split: option.splits prod.splits)

lemma DeleteObsolete_success:
  assumes "\<forall>kc \<in> set (clients s). ID (snd kc) = fst kc"
    and "snd (fst (DeleteObsolete now s)) = None"
  shows "(\<forall>kc \<in> set (clients (snd (DeleteObsolete now s))).
            \<not> Obsolete now (snd kc) (KeepLostClients (snd (DeleteObsolete now s))))"
  using deleteObsoleteLoop_clean [OF assms(1), of "clients s" now "KeepLostClients s" "[]"] assms(2)
  by (auto simp: DeleteObsolete_def Let_def split: option.splits prod.splits)

text \<open>
  C8 (as stated): a second call right after a first evicts nothing, for any repository
  state. When the provider fails in the first call, that call returns before it reaches
  the cache; a second call in which the provider succeeds then evicts the obsolete client.
\<close>

theorem C8_counterexample:
  "snd (fst (DeleteObsolete 100 flakyRepo)) = Some ''failed to delete obsolete clients: database is locked''
   \<and> fst (fst (DeleteObsolete 100 (snd (DeleteObsolete 100 flakyRepo)))) = [staleClient]
   \<and> clients (snd (DeleteObsolete 100 (snd (DeleteObsolete 100 flakyRepo))))
       \<noteq> clients (snd (DeleteObsolete 100 flakyRepo))"
  by (simp add: DeleteObsolete_def flakyRepo_def newClientRepositoryWithDB_def flakyProvider_def
      staleClient_def liveClient_def Obsolete_def Let_def)

text \<open>
  C8 (amended): after a call of DeleteObsolete that returned no error, a second call at the
  same clock reading returns an empty list of deleted clients and leaves the cache
  unchanged (whether or not the provider fails in the second call).
\<close>

theorem C8_DeleteObsolete_idempotent:
  assumes "cacheInv (clients s)"
    and "snd (fst (DeleteObsolete now s)) = None"
  shows "fst (fst (DeleteObsolete now (snd (DeleteObsolete now s)))) = []
     \<and> clients (snd (DeleteObsolete now (snd (DeleteObsolete now s))))
         = clients (snd (DeleteObsolete now s))"
proof -
  have "\<forall>kc \<in> set (clients s). ID (snd kc) = fst kc"
    using assms(1) by (simp add: cacheInv_def)
  from DeleteObsolete_success [OF this assms(2)] show ?thesis
    by (rule DeleteObsolete_clean)
qed

theorem C8_DeleteObsolete_idempotent_witness:
  "cacheInv (clients memoryRepo)
   \<and> fst (DeleteObsolete 100 memoryRepo) = ([staleClient], None)
   \<and> fst (DeleteObsolete 100 (snd (DeleteObsolete 100 memoryRepo))) = ([], None)
   \<and> clients (snd (DeleteObsolete 100 (snd (DeleteObsolete 100 memoryRepo)))) = [(''c2'', liveClient)]"
proof -
  have inv: "cacheInv (clients memoryRepo)"
    by (simp add: memoryRepo_def NewClientRepository_def cacheInv_new)
  have first: "fst (DeleteObsolete 100 memoryRepo) = ([staleClient], None)"
    by (simp add: DeleteObsolete_def memoryRepo_def NewClientRepository_def
        newClientRepositoryWithDB_def staleClient_def liveClient_def Obsolete_def Let_def)
  have cache: "clients (snd (DeleteObsolete 100 memoryRepo)) = [(''c2'', liveClient)]"
    by (simp add: DeleteObsolete_def memoryRepo_def NewClientRepository_def
        newClientRepositoryWithDB_def staleClient_def liveClient_def Obsolete_def Let_def)
  have err: "snd (fst (DeleteObsolete 100 (snd (DeleteObsolete 100 memoryRepo)))) = None"
    by (simp add: DeleteObsolete_def memoryRepo_def NewClientRepository_def
        newClientRepositoryWithDB_def staleClient_def liveClient_def Obsolete_def Let_def)
  from first have ok: "snd (fst (DeleteObsolete 100 memoryRepo)) = None"
    by simp
  from C8_DeleteObsolete_idempotent [OF inv ok] inv first cache err show ?thesis
    by (simp add: prod_eq_iff)
qed

subsection \<open>Save\<close>

lemma reads_depend_on_cache:
  assumes "clients s' = clients s" and "KeepLostClients s' = KeepLostClients s"
  shows "GetByID now s' k = GetByID now s k"
    and "GetActiveByID s' k = GetActiveByID s k"
    and "GetAll now s' = GetAll now s"
    and "GetAllByClientAuthID now s' a = GetAllByClientAuthID now s a"
    and "Count now s' = Count now s"
    and "CountActive s' = CountActive s"
    and "CountDisconnected now s' = CountDisconnected now s"
    and "GetUserClients env now s' user fo = GetUserClients env now s user fo"
  unfolding GetByID_def GetActiveByID_def GetAll_def GetAllByClientAuthID_def Count_def
    CountActive_def GetAllActive_def CountDisconnected_def GetUserClients_def getNonObsolete_def getNonObsoleteFiltered_def
    assms(1) assms(2)
  by (rule refl)+

lemma Save_provider_error:
  assumes "provider s = Some p" and "providerSave p c (store s) = (Some err, st)"
  shows "Save s c = (Some (''failed to save a client: '' @ err), s\<lparr>store := st\<rparr>)"
  using assms by (simp add: Save_def)

lemma Save_provider_ok:
  assumes "provider s = Some p" and "providerSave p c (store s) = (None, st)"
  shows "Save s c = (None, s\<lparr>store := st, clients := AList.update (ID c) c (clients s)\<rparr>)"
  using assms by (simp add: Save_def)

text \<open>
  C2: with a provider configured, Save calls the provider's Save on the store first. If that
  returns an error, Save returns an error, the cache is unchanged and every read returns
  what it returned before; if it succeeds, the cache is updated on top of the store the
  provider left.
\<close>

theorem C2_Save_persists_first:
  assumes "provider s = Some p"
  shows "(\<forall>err st. providerSave p c (store s) = (Some err, st) \<longrightarrow>
            fst (Save s c) = Some (''failed to save a client: '' @ err)
            \<and> clients (snd (Save s c)) = clients s
            \<and> (\<forall>now k a user fo (env :: ('j, 'r) Env).
                  GetByID now (snd (Save s c)) k = GetByID now s k
                  \<and> GetActiveByID (snd (Save s c)) k = GetActiveByID s k
                  \<and> GetAll now (snd (Save s c)) = GetAll now s
                  \<and> GetAllByClientAuthID now (snd (Save s c)) a = GetAllByClientAuthID now s a
                  \<and> Count now (snd (Save s c)) = Count now s
                  \<and> CountActive (snd (Save s c)) = CountActive s
                  \<and> CountDisconnected now (snd (Save s c)) = CountDisconnected now s
                  \<and> GetUserClients env now (snd (Save s c)) user fo = GetUserClients env now s user fo))
       \<and> (\<forall>st. providerSave p c (store s) = (None, st) \<longrightarrow>
            Save s c = (None, s\<lparr>store := st, clients := AList.update (ID c) c (clients s)\<rparr>))"
proof (intro conjI allI impI)
  fix st
  assume "providerSave p c (store s) = (None, st)"
  then show "Save s c = (None, s\<lparr>store := st, clients := AList.update (ID c) c (clients s)\<rparr>)"
    using assms by (rule Save_provider_ok [rotated])
next
  fix err st
  assume e: "providerSave p c (store s) = (Some err, st)"
  have sv: "Save s c = (Some (''failed to save a client: '' @ err), s\<lparr>store := st\<rparr>)"
    using assms e by (rule Save_provider_error)
  show "fst (Save s c) = Some (''failed to save a client: '' @ err)"
    by (simp add: sv)
  show "clients (snd (Save s c)) = clients s"
    by (simp add: sv)
  have c: "clients (snd (Save s c)) = clients s"
    and k: "KeepLostClients (snd (Save s c)) = KeepLostClients s"
    by (simp_all add: sv)
  fix now k' a user fo and env :: "('j, 'r) Env"
  show "GetByID now (snd (Save s c)) k' = GetByID now s k'"
    by (rule reads_depend_on_cache [OF c k])
  show "GetActiveByID (snd (Save s c)) k' = GetActiveByID s k'"
    by (rule reads_depend_on_cache [OF c k])
  show "GetAll now (snd (Save s c)) = GetAll now s"
    by (rule reads_depend_on_cache [OF c k])
  show "GetAllByClientAuthID now (snd (Save s c)) a = GetAllByClientAuthID now s a"
    by (rule reads_depend_on_cache [OF c k])
  show "Count now (snd (Save s c)) = Count now s"
    by (rule reads_depend_on_cache [OF c k])
  show "CountActive (snd (Save s c)) = CountActive s"
    by (rule reads_depend_on_cache [OF c k])
  show "CountDisconnected now (snd (Save s c)) = CountDisconnected now s"
    by (rule reads_depend_on_cache [OF c k])
  show "GetUserClients env now (snd (Save s c)) user fo = GetUserClients env now s user fo"
    by (rule reads_depend_on_cache [OF c k])
qed

lemmas example_defs = flakyRepo_def memoryRepo_def NewClientRepository_def
  newClientRepositoryWithDB_def flakyProvider_def staleClient_def liveClient_def

theorem C2_Save_persists_first_witness:
  "provider flakyRepo = Some flakyProvider
   \<and> providerSave flakyProvider liveClient (store flakyRepo) = (Some ''database is locked'', True)
   \<and> fst (Save flakyRepo liveClient) = Some ''failed to save a client: database is locked''
   \<and> clients (snd (Save flakyRepo liveClient)) = clients flakyRepo
   \<and> GetByID 5 (snd (Save flakyRepo liveClient)) ''c1'' = (Some staleClient, None)
   \<and> providerSave flakyProvider liveClient (store (snd (Save flakyRepo liveClient))) = (None, True)
   \<and> fst (Save (snd (Save flakyRepo liveClient)) liveClient) = None"
proof -
  have p: "provider flakyRepo = Some flakyProvider"
    by (simp add: example_defs)
  have e: "providerSave flakyProvider liveClient (store flakyRepo) = (Some ''database is locked'', True)"
    by (simp add: example_defs)
  have g: "GetByID 5 flakyRepo ''c1'' = (Some staleClient, None)"
    by (simp add: example_defs GetByID_def Obsolete_def)
  have p2: "provider (snd (Save flakyRepo liveClient)) = Some flakyProvider"
    by (simp add: example_defs Save_def)
  have e2: "providerSave flakyProvider liveClient (store (snd (Save flakyRepo liveClient))) = (None, True)"
    by (simp add: example_defs Save_def)
  note t1 = C2_Save_persists_first [where ?'j = unit and ?'r = unit, OF p, of liveClient]
  note t2 = C2_Save_persists_first [where ?'j = unit and ?'r = unit, OF p2, of liveClient]
  from t1 have "\<forall>err st. providerSave flakyProvider liveClient (store flakyRepo) = (Some err, st) \<longrightarrow>
      fst (Save flakyRepo liveClient) = Some (''failed to save a client: '' @ err)
      \<and> clients (snd (Save flakyRepo liveClient)) = clients flakyRepo
      \<and> GetByID 5 (snd (Save flakyRepo liveClient)) ''c1'' = GetByID 5 flakyRepo ''c1''"
    by blast
  with e have a: "fst (Save flakyRepo liveClient) = Some ''failed to save a client: database is locked''"
    and b: "clients (snd (Save flakyRepo liveClient)) = clients flakyRepo"
    and c: "GetByID 5 (snd (Save flakyRepo liveClient)) ''c1'' = GetByID 5 flakyRepo ''c1''"
    by auto
  from t2 e2 have "Save (snd (Save flakyRepo liveClient)) liveClient =
      (None, snd (Save flakyRepo liveClient)\<lparr>store := True,
         clients := AList.update (ID liveClient) liveClient (clients (snd (Save flakyRepo liveClient)))\<rparr>)"
    by blast
  then have d: "fst (Save (snd (Save flakyRepo liveClient)) liveClient) = None"
    by simp
  from p e a b c g e2 d show ?thesis by simp
qed

subsection \<open>Obsolete clients are hidden\<close>

lemma cacheInv_map_of:
  assumes "cacheInv m" and "c \<in> snd ` set m"
  shows "map_of m (ID c) = Some c"
proof -
  from assms(2) obtain k where "(k, c) \<in> set m" by auto
  moreover from this assms(1) have "ID c = k" by (auto simp: cacheInv_def)
  ultimately show ?thesis using assms(1) by (simp add: cacheInv_def)
qed

lemma Obsolete_iff:
  "Obsolete now c (Some keep) = (\<exists>t. DisconnectedAt c = Some t \<and> t + keep < now)"
  by (simp add: Obsolete_def split: option.splits)

lemma GetAll_set:
  "set (fst (GetAll now s)) = {c \<in> snd ` set (clients s). \<not> Obsolete now c (KeepLostClients s)}"
  by (auto simp: GetAll_def getNonObsolete_def getNonObsoleteLoop_eq)

lemma GetUserClients_subset:
  "x \<in> set (fst (GetUserClients env now s user fo)) \<Longrightarrow>
     x \<in> snd ` set (clients s) \<and> \<not> Obsolete now x (KeepLostClients s)"
  using filteredLoop_subset [of x env now "KeepLostClients s" user fo "clients s" "[]"]
  by (simp add: GetUserClients_def getNonObsoleteFiltered_def)

lemma Count_delete_obsolete:
  assumes "distinct (map fst (clients s))" and "map_of (clients s) k = Some c"
    and "Obsolete now c (KeepLostClients s)"
  shows "Count now (s\<lparr>clients := AList.delete k (clients s)\<rparr>) = Count now s"
    and "CountDisconnected now (s\<lparr>clients := AList.delete k (clients s)\<rparr>) = CountDisconnected now s"
  using filter_delete_absent [OF assms(1,2), of "\<lambda>c. \<not> Obsolete now c (KeepLostClients s)"] assms(3)
  by (simp_all add: Count_def CountDisconnected_def getNonObsolete_def getNonObsoleteLoop_eq)

text \<open>
  C3: a cached client whose \<open>disconnected_at\<close> lies more than \<open>keep_lost_clients\<close>
  before now is not returned by GetByID of its id, is no element of the results of GetAll
  and GetUserClients, and is not counted by Count and CountDisconnected (the counts are
  those of the cache without it).
\<close>

theorem C3_obsolete_excluded:
  assumes "cacheInv (clients s)"
    and "c \<in> snd ` set (clients s)"
    and "KeepLostClients s = Some keep"
    and "DisconnectedAt c = Some t"
    and "t + keep < now"
  shows "GetByID now s (ID c) = (None, None)
     \<and> c \<notin> set (fst (GetAll now s))
     \<and> c \<notin> set (fst (GetUserClients env now s user filterOptions))
     \<and> Count now s = Count now (s\<lparr>clients := AList.delete (ID c) (clients s)\<rparr>)
     \<and> CountDisconnected now s = CountDisconnected now (s\<lparr>clients := AList.delete (ID c) (clients s)\<rparr>)"
proof -
  have obs: "Obsolete now c (KeepLostClients s)"
    using assms(3,4,5) by (simp add: Obsolete_iff)
  have look: "map_of (clients s) (ID c) = Some c"
    using assms(1,2) by (rule cacheInv_map_of)
  have dist: "distinct (map fst (clients s))"
    using assms(1) by (simp add: cacheInv_def)
  have "GetByID now s (ID c) = (None, None)"
    using obs look by (simp add: GetByID_def)
  moreover have "c \<notin> set (fst (GetAll now s))"
    using obs by (simp add: GetAll_set)
  moreover have "c \<notin> set (fst (GetUserClients env now s user filterOptions))"
    using obs GetUserClients_subset [of c env now s user filterOptions] by blast
  moreover note Count_delete_obsolete [OF dist look obs]
  ultimately show ?thesis by simp
qed

theorem C3_obsolete_excluded_witness:
  "cacheInv (clients memoryRepo) \<and> staleClient \<in> snd ` set (clients memoryRepo)
   \<and> KeepLostClients memoryRepo = Some 10 \<and> DisconnectedAt staleClient = Some 0 \<and> (0::int) + 10 < 100
   \<and> GetByID 100 memoryRepo ''c1'' = (None, None)
   \<and> GetByID 5 memoryRepo ''c1'' = (Some staleClient, None)
   \<and> fst (GetAll 100 memoryRepo) = [liveClient]
   \<and> fst (GetUserClients plainEnv 100 memoryRepo \<lparr>IsAdmin = True, GetGroups = []\<rparr> []) = [liveClient]
   \<and> Count 100 memoryRepo = (1, None)
   \<and> CountDisconnected 100 memoryRepo = (0, None)"
proof -
  have inv: "cacheInv (clients memoryRepo)"
    by (simp add: memoryRepo_def NewClientRepository_def cacheInv_new)
  have mem: "staleClient \<in> snd ` set (clients memoryRepo)"
    by (simp add: example_defs)
  have keep: "KeepLostClients memoryRepo = Some 10"
    by (simp add: example_defs)
  have disc: "DisconnectedAt staleClient = Some 0"
    by (simp add: example_defs)
  have lt: "(0::int) + 10 < 100" by simp
  have id1: "ID staleClient = ''c1''"
    by (simp add: example_defs)
  have early: "GetByID 5 memoryRepo ''c1'' = (Some staleClient, None)"
    by (simp add: example_defs GetByID_def Obsolete_def)
  have all: "fst (GetAll 100 memoryRepo) = [liveClient]"
    by (simp add: example_defs GetAll_def getNonObsolete_def Obsolete_def)
  have usr: "fst (GetUserClients plainEnv 100 memoryRepo \<lparr>IsAdmin = True, GetGroups = []\<rparr> []) = [liveClient]"
    by (simp add: example_defs GetUserClients_def getNonObsoleteFiltered_def Obsolete_def)
  have cnt: "Count 100 memoryRepo = (1, None)"
    by (simp add: example_defs Count_def getNonObsolete_def Obsolete_def)
  have cntd: "CountDisconnected 100 memoryRepo = (0, None)"
    by (simp add: example_defs CountDisconnected_def getNonObsolete_def Obsolete_def)
  from C3_obsolete_excluded [OF inv mem keep disc lt, of plainEnv "\<lparr>IsAdmin = True, GetGroups = []\<rparr>" "[]"]
  have "GetByID 100 memoryRepo (ID staleClient) = (None, None)" by simp
  with inv mem keep disc lt id1 early all usr cnt cntd show ?thesis by simp
qed

section \<open>Properties of filter matching\<close>

lemma hasUnescapedWildCard_iff:
  "hasUnescapedWildCard v = (\<exists>i. Suc i < length v \<and> v ! i \<noteq> backslash \<and> v ! Suc i = star)"
proof (induction v rule: hasUnescapedWildCard.induct)
  case (1 c d rest)
  have "(\<exists>i. Suc i < length (c # d # rest) \<and> (c # d # rest) ! i \<noteq> backslash
            \<and> (c # d # rest) ! Suc i = star)
        = ((c \<noteq> backslash \<and> d = star)
           \<or> (\<exists>j. Suc j < length (d # rest) \<and> (d # rest) ! j \<noteq> backslash
                 \<and> (d # rest) ! Suc j = star))"
    (is "?L = (?A \<or> ?B)")
  proof
    assume ?L
    then obtain i where i: "Suc i < length (c # d # rest)" "(c # d # rest) ! i \<noteq> backslash"
      "(c # d # rest) ! Suc i = star" by blast
    show "?A \<or> ?B"
    proof (cases i)
      case 0
      with i show ?thesis by simp
    next
      case (Suc j)
      with i have "Suc j < length (d # rest) \<and> (d # rest) ! j \<noteq> backslash
          \<and> (d # rest) ! Suc j = star" by simp
      then show ?thesis by blast
    qed
  next
    assume "?A \<or> ?B"
    then show ?L
    proof
      assume ?A
      then have "Suc 0 < length (c # d # rest) \<and> (c # d # rest) ! 0 \<noteq> backslash
          \<and> (c # d # rest) ! Suc 0 = star" by simp
      then show ?L by blast
    next
      assume ?B
      then obtain j where "Suc j < length (d # rest)" "(d # rest) ! j \<noteq> backslash"
        "(d # rest) ! Suc j = star" by blast
      then have "Suc (Suc j) < length (c # d # rest) \<and> (c # d # rest) ! Suc j \<noteq> backslash
          \<and> (c # d # rest) ! Suc (Suc j) = star" by simp
      then show ?L by blast
    qed
  qed
  with 1 show ?case by simp
qed simp_all

lemma escaped_stars_not_wild:
  assumes "\<forall>i < length v. v ! i = star \<longrightarrow> 0 < i \<and> v ! (i - 1) = backslash"
  shows "\<not> hasUnescapedWildCard v"
proof
  assume "hasUnescapedWildCard v"
  then obtain i where i: "Suc i < length v" "v ! i \<noteq> backslash" "v ! Suc i = star"
    by (auto simp: hasUnescapedWildCard_iff)
  with assms have "v ! (Suc i - 1) = backslash" by blast
  with i show False by simp
qed

lemma starUnescaped_eq:
  "starUnescaped prev v =
     ((\<exists>rest. v = star # rest \<and> prev \<noteq> Some backslash) \<or> hasUnescapedWildCard v)"
proof (induction v arbitrary: prev)
  case Nil
  then show ?case by simp
next
  case (Cons c v)
  show ?case
  proof (cases v)
    case Nil
    then show ?thesis by simp
  next
    case (Cons d rest)
    then show ?thesis using Cons.IH [of "Some c"] by auto
  qed
qed

lemma containsUnescapedStar_eq:
  "containsUnescapedStar v = ((\<exists>rest. v = star # rest) \<or> hasUnescapedWildCard v)"
  by (simp add: containsUnescapedStar_def starUnescaped_eq)

lemma matchValuesLoop_eq:
  "matchValuesLoop env str vs =
     ((\<exists>fv \<in> set vs.
         if hasUnescapedWildCard fv
         then (case regexpCompile env (ReplaceAll fv star ''.*'') of
                 Inr r \<Rightarrow> MatchString env r str
               | Inl e \<Rightarrow> fv = str)
         else fv = str), None)"
  by (induction vs) (auto split: sum.splits)

lemmas rx_defs = regexpEnv_def rxCompile_def ReplaceAll_def star_def backslash_def rxPunct_def
  rxOrdinary_def clientMatchesFilter_def clientToMap_def staleClient_def

text \<open>
  C1 (as stated): a value with an unescaped star, a leading one included, matches exactly
  when the anchored expression matches the entire field. For the field \<open>c1\<close>: the value
  \<open>*1\<close> should match and is compared literally instead; the value \<open>1*\<close> should not match
  and does, because the search finds \<open>1\<close> inside the field.
\<close>

theorem C1_counterexample:
  "containsUnescapedStar ''*1'' \<and> specValueMatches ''*1'' ''c1''
   \<and> clientMatchesFilter regexpEnv staleClient \<lparr>Column = ''id'', Values = [''*1'']\<rparr> = (False, None)
   \<and> containsUnescapedStar ''1*'' \<and> \<not> specValueMatches ''1*'' ''c1''
   \<and> clientMatchesFilter regexpEnv staleClient \<lparr>Column = ''id'', Values = [''1*'']\<rparr> = (True, None)"
  by (simp add: rx_defs containsUnescapedStar_def specValueMatches_def)

text \<open>
  C1 (amended): for a client whose map has the filter's column, a filter value in which a
  star follows a character other than a backslash matches the field if and only if the
  expression obtained by replacing each star with \<open>.*\<close> matches the stringified field
  value under \<open>MatchString\<close> (or, when the expression does not compile, the value equals
  the field); a value whose every star is escaped is compared as a literal string; and a
  filter matches when one of its values does.
\<close>

theorem C1_filter_value_matching:
  assumes "clientToMap env cl = (m, None)" and "m (Column f) = Some v"
  shows "(\<forall>fv. (\<exists>i. Suc i < length fv \<and> fv ! i \<noteq> backslash \<and> fv ! Suc i = star) \<longrightarrow>
            clientMatchesFilter env cl (f\<lparr>Values := [fv]\<rparr>) =
              (case regexpCompile env (ReplaceAll fv star ''.*'') of
                 Inr r \<Rightarrow> MatchString env r (Sprint env v)
               | Inl e \<Rightarrow> fv = Sprint env v, None))
     \<and> (\<forall>fv. (\<forall>i < length fv. fv ! i = star \<longrightarrow> 0 < i \<and> fv ! (i - 1) = backslash) \<longrightarrow>
            clientMatchesFilter env cl (f\<lparr>Values := [fv]\<rparr>) = (fv = Sprint env v, None))
     \<and> clientMatchesFilter env cl f =
          (\<exists>fv \<in> set (Values f). fst (clientMatchesFilter env cl (f\<lparr>Values := [fv]\<rparr>)), None)"
proof (intro conjI allI impI)
  fix fv
  assume "\<exists>i. Suc i < length fv \<and> fv ! i \<noteq> backslash \<and> fv ! Suc i = star"
  then have "hasUnescapedWildCard fv" by (simp add: hasUnescapedWildCard_iff)
  then show "clientMatchesFilter env cl (f\<lparr>Values := [fv]\<rparr>) =
      (case regexpCompile env (ReplaceAll fv star ''.*'') of
         Inr r \<Rightarrow> MatchString env r (Sprint env v)
       | Inl e \<Rightarrow> fv = Sprint env v, None)"
    using assms by (simp add: clientMatchesFilter_def split: sum.splits)
next
  fix fv
  assume "\<forall>i < length fv. fv ! i = star \<longrightarrow> 0 < i \<and> fv ! (i - 1) = backslash"
  then have "\<not> hasUnescapedWildCard fv" by (rule escaped_stars_not_wild)
  then show "clientMatchesFilter env cl (f\<lparr>Values := [fv]\<rparr>) = (fv = Sprint env v, None)"
    using assms by (simp add: clientMatchesFilter_def)
next
  show "clientMatchesFilter env cl f =
      (\<exists>fv \<in> set (Values f). fst (clientMatchesFilter env cl (f\<lparr>Values := [fv]\<rparr>)), None)"
    using assms by (auto simp: clientMatchesFilter_def matchValuesLoop_eq)
qed

theorem C1_filter_value_matching_witness:
  "clientToMap regexpEnv staleClient = ([''id'' \<mapsto> ''c1''], None)
   \<and> [''id'' \<mapsto> ''c1''] (Column \<lparr>Column = ''id'', Values = [''zz'', ''1*'']\<rparr>) = Some ''c1''
   \<and> Suc 0 < length ''1*'' \<and> ''1*'' ! 0 \<noteq> backslash \<and> ''1*'' ! Suc 0 = star
   \<and> clientMatchesFilter regexpEnv staleClient \<lparr>Column = ''id'', Values = [''1*'']\<rparr> = (True, None)
   \<and> clientMatchesFilter regexpEnv staleClient \<lparr>Column = ''id'', Values = [''zz'', ''1*'']\<rparr> = (True, None)
   \<and> clientMatchesFilter regexpEnv staleClient \<lparr>Column = ''id'', Values = [[CHR ''c'', backslash, star]]\<rparr>
       = (False, None)"
proof -
  let ?f = "\<lparr>Column = ''id'', Values = [''zz'', ''1*'']\<rparr>"
  have m: "clientToMap regexpEnv staleClient = ([''id'' \<mapsto> ''c1''], None)"
    by (simp add: rx_defs)
  have col: "[''id'' \<mapsto> ''c1''] (Column ?f) = Some ''c1''"
    by simp
  note t = C1_filter_value_matching [OF m col]
  have wild: "Suc 0 < length ''1*'' \<and> ''1*'' ! 0 \<noteq> backslash \<and> ''1*'' ! Suc 0 = star"
    by (simp add: star_def backslash_def)
  then have "\<exists>i. Suc i < length ''1*'' \<and> ''1*'' ! i \<noteq> backslash \<and> ''1*'' ! Suc i = star"
    by blast
  with t have "clientMatchesFilter regexpEnv staleClient (?f\<lparr>Values := [''1*'']\<rparr>) =
      (case regexpCompile regexpEnv (ReplaceAll ''1*'' star ''.*'') of
         Inr r \<Rightarrow> MatchString regexpEnv r (Sprint regexpEnv ''c1'')
       | Inl e \<Rightarrow> ''1*'' = Sprint regexpEnv ''c1'', None)"
    by blast
  then have one: "clientMatchesFilter regexpEnv staleClient \<lparr>Column = ''id'', Values = [''1*'']\<rparr>
      = (True, None)"
    by (simp add: regexpEnv_def rxCompile_def ReplaceAll_def star_def backslash_def rxPunct_def
        rxOrdinary_def)
  have esc: "\<forall>i < length [CHR ''c'', backslash, star].
      [CHR ''c'', backslash, star] ! i = star \<longrightarrow> 0 < i \<and> [CHR ''c'', backslash, star] ! (i - 1) = backslash"
    by (simp add: less_Suc_eq star_def backslash_def)
  from t have "clientMatchesFilter regexpEnv staleClient (?f\<lparr>Values := [[CHR ''c'', backslash, star]]\<rparr>)
      = ([CHR ''c'', backslash, star] = Sprint regexpEnv ''c1'', None)"
    using esc by blast
  then have lit: "clientMatchesFilter regexpEnv staleClient
      \<lparr>Column = ''id'', Values = [[CHR ''c'', backslash, star]]\<rparr> = (False, None)"
    by (simp add: regexpEnv_def)
  have hit: "clientMatchesFilter regexpEnv staleClient ?f = (True, None)"
    by (simp add: rx_defs)
  from m col wild one hit lit show ?thesis by simp
qed

subsection \<open>Searching and anchored matching\<close>

text \<open>
  On the modelled engine \<open>MatchString\<close> is a search: the expression matches when it
  matches some substring entirely. The anchored match of the spec is the case of an empty
  prefix and suffix.
\<close>

lemma rxMatchHere_iff:
  "rxMatchHere items s = (\<exists>mid post. s = mid @ post \<and> rxMatchWhole items mid)"
proof (induction items s rule: rxMatchHere.induct)
  case (1 s)
  then show ?case by simp
next
  case (2 a items)
  then show ?case by simp
next
  case (3 a items c s)
  show ?case
  proof
    assume "rxMatchHere (Once a # items) (c # s)"
    with 3 obtain mid post where "rxAtomOk a c" "s = mid @ post" "rxMatchWhole items mid"
      by auto
    then have "c # s = (c # mid) @ post \<and> rxMatchWhole (Once a # items) (c # mid)" by simp
    then show "\<exists>mid post. c # s = mid @ post \<and> rxMatchWhole (Once a # items) mid" by blast
  next
    assume "\<exists>mid post. c # s = mid @ post \<and> rxMatchWhole (Once a # items) mid"
    then obtain mid post where m: "c # s = mid @ post" "rxMatchWhole (Once a # items) mid"
      by blast
    then obtain mid' where "mid = c # mid'" by (cases mid) auto
    with m 3 show "rxMatchHere (Once a # items) (c # s)" by auto
  qed
next
  case (4 a items)
  then show ?case by simp
next
  case (5 a items c s)
  show ?case
  proof
    assume "rxMatchHere (Many a # items) (c # s)"
    then consider "rxMatchHere items (c # s)" | "rxAtomOk a c" "rxMatchHere (Many a # items) s"
      by auto
    then show "\<exists>mid post. c # s = mid @ post \<and> rxMatchWhole (Many a # items) mid"
    proof cases
      case 1
      with 5 obtain mid post where mp: "c # s = mid @ post" "rxMatchWhole items mid" by auto
      then have "rxMatchWhole (Many a # items) mid" by (cases mid) auto
      with mp show ?thesis by blast
    next
      case 2
      with 5 obtain mid post where "s = mid @ post" "rxMatchWhole (Many a # items) mid" by auto
      with 2 have "c # s = (c # mid) @ post \<and> rxMatchWhole (Many a # items) (c # mid)" by simp
      then show ?thesis by blast
    qed
  next
    assume "\<exists>mid post. c # s = mid @ post \<and> rxMatchWhole (Many a # items) mid"
    then obtain mid post where m: "c # s = mid @ post" "rxMatchWhole (Many a # items) mid"
      by blast
    show "rxMatchHere (Many a # items) (c # s)"
    proof (cases mid)
      case Nil
      with m have "rxMatchWhole items []" by simp
      then have "c # s = [] @ (c # s) \<and> rxMatchWhole items []" by simp
      with 5 show ?thesis by (metis rxMatchHere.simps(5))
    next
      case (Cons c' mid')
      with m have c: "c' = c" "s = mid' @ post" by auto
      from m Cons c consider "rxMatchWhole items (c # mid')"
        | "rxAtomOk a c" "rxMatchWhole (Many a # items) mid'" by auto
      then show ?thesis
      proof cases
        case 1
        with c have "c # s = (c # mid') @ post \<and> rxMatchWhole items (c # mid')" by simp
        with 5 show ?thesis by (metis rxMatchHere.simps(5))
      next
        case 2
        with c 5 show ?thesis by auto
      qed
    qed
  qed
qed

lemma rxMatchString_iff:
  "rxMatchString items s = (\<exists>pre mid post. s = pre @ mid @ post \<and> rxMatchWhole items mid)"
proof (induction s)
  case Nil
  then show ?case by (simp add: rxMatchHere_iff)
next
  case (Cons c s)
  show ?case
  proof
    assume "rxMatchString items (c # s)"
    then consider "rxMatchHere items (c # s)" | "rxMatchString items s" by auto
    then show "\<exists>pre mid post. c # s = pre @ mid @ post \<and> rxMatchWhole items mid"
    proof cases
      case 1
      then obtain mid post where "c # s = [] @ mid @ post \<and> rxMatchWhole items mid"
        by (auto simp: rxMatchHere_iff)
      then show ?thesis by blast
    next
      case 2
      with Cons obtain pre mid post where "s = pre @ mid @ post" "rxMatchWhole items mid" by auto
      then have "c # s = (c # pre) @ mid @ post \<and> rxMatchWhole items mid" by simp
      then show ?thesis by blast
    qed
  next
    assume "\<exists>pre mid post. c # s = pre @ mid @ post \<and> rxMatchWhole items mid"
    then obtain pre mid post where p: "c # s = pre @ mid @ post" "rxMatchWhole items mid" by blast
    show "rxMatchString items (c # s)"
    proof (cases pre)
      case Nil
      with p have "rxMatchHere items (c # s)" by (auto simp: rxMatchHere_iff)
      then show ?thesis by simp
    next
      case pre: (Cons c' pre')
      with p have "s = pre' @ mid @ post" by simp
      with p(2) Cons.IH have "rxMatchString items s" by blast
      then show ?thesis by simp
    qed
  qed
qed

section \<open>Properties of command execution\<close>

lemma createAndRunJob_dispatch_error:
  assumes "snd (SendRequestAndGetResponse codec (targetConn t) ''run_cmd'' (newJob cmd t) True)
      = Some err"
  shows "createAndRunJob codec cmd t =
     ((newJob cmd t)\<lparr>Status := JobStatusFailed, Error := errorText err\<rparr>, False)"
  using assms by (auto simp: createAndRunJob_def Let_def split: prod.splits option.splits)

lemma storedJob_dispatch_error:
  assumes "snd (SendRequestAndGetResponse codec (targetConn t) ''run_cmd'' (newJob cmd t) True)
      = Some err"
  shows "storedJob codec cmd t = (newJob cmd t)\<lparr>Status := JobStatusFailed, Error := errorText err\<rparr>"
  by (simp add: storedJob_def createAndRunJob_dispatch_error [OF assms])

lemma send_error_dispatch_error:
  assumes "snd (marshalReq codec (newJob cmd t)) = None" and "sendError codec cmd t = Some e"
  shows "snd (SendRequestAndGetResponse codec (targetConn t) ''run_cmd'' (newJob cmd t) True)
     = Some (PlainError (''failed to send request: '' @ e))"
  using assms
  by (auto simp: SendRequestAndGetResponse_def sendError_def split: prod.splits option.splits)

lemma storedJob_send_error:
  assumes "snd (marshalReq codec (newJob cmd t)) = None" and "sendError codec cmd t = Some e"
  shows "storedJob codec cmd t =
     (newJob cmd t)\<lparr>Status := JobStatusFailed, Error := ''failed to send request: '' @ e\<rparr>"
  using storedJob_dispatch_error [OF send_error_dispatch_error [OF assms]] by simp

lemma createAndRunJob_failed:
  "\<not> snd (createAndRunJob codec cmd t) \<Longrightarrow> Status (fst (createAndRunJob codec cmd t)) = JobStatusFailed"
  by (auto simp: createAndRunJob_def Let_def split: prod.splits option.splits)

lemma executeSequential_step:
  "executeSequential codec cmd abortOnErr (t # ts) =
     storedJob codec cmd t
       # (if abortOnErr \<and> Status (storedJob codec cmd t) \<noteq> JobStatusSuccessful then []
          else executeSequential codec cmd abortOnErr ts)"
proof (cases "createAndRunJob codec cmd t")
  case (Pair job ok)
  show ?thesis
  proof (cases ok)
    case True
    with Pair show ?thesis by (simp add: storedJob_def)
  next
    case False
    with Pair createAndRunJob_failed [of codec cmd t] have "Status job = JobStatusFailed" by simp
    with Pair False show ?thesis by (simp add: storedJob_def)
  qed
qed

lemma executeSequential_no_abort:
  "executeSequential codec cmd False ts = map (storedJob codec cmd) ts"
  by (induction ts) (simp_all add: executeSequential_step del: executeSequential.simps(2))

lemma executeSequential_abort:
  "executeSequential codec cmd True ts =
     map (storedJob codec cmd)
       (take (Suc (length (takeWhile (\<lambda>u. Status (storedJob codec cmd u) = JobStatusSuccessful) ts))) ts)"
  by (induction ts) (simp_all add: executeSequential_step del: executeSequential.simps(2))

lemma takeWhile_stops: "\<not> P t \<Longrightarrow> takeWhile P (pre @ t # post) = takeWhile P pre"
  by (induction pre) simp_all

lemma take_up_to: "n \<le> Suc (length pre) \<Longrightarrow> take n (pre @ t # post) = take n (pre @ [t])"
  by (induction pre arbitrary: n) (auto simp: take_Cons split: nat.splits)

lemma executeSequential_abort_at:
  assumes "Status (storedJob codec cmd t) \<noteq> JobStatusSuccessful"
  shows "executeSequential codec cmd True (pre @ t # post) =
     map (storedJob codec cmd)
       (take (Suc (length (takeWhile (\<lambda>u. Status (storedJob codec cmd u) = JobStatusSuccessful) pre)))
          (pre @ [t]))"
proof -
  let ?P = "\<lambda>u. Status (storedJob codec cmd u) = JobStatusSuccessful"
  have tw: "takeWhile ?P (pre @ t # post) = takeWhile ?P pre"
    using assms by (rule takeWhile_stops)
  have "Suc (length (takeWhile ?P pre)) \<le> Suc (length pre)"
    by (simp add: length_takeWhile_le)
  then have tk: "take (Suc (length (takeWhile ?P pre))) (pre @ t # post)
      = take (Suc (length (takeWhile ?P pre))) (pre @ [t])"
    by (rule take_up_to)
  have "executeSequential codec cmd True (pre @ t # post) =
      map (storedJob codec cmd) (take (Suc (length (takeWhile ?P (pre @ t # post)))) (pre @ t # post))"
    by (rule executeSequential_abort)
  then show ?thesis by (simp only: tw tk)
qed

lemma executeConcurrently_eq: "executeConcurrently codec cmd ts = map (storedJob codec cmd) ts"
  unfolding executeConcurrently_def storedJob_def by (rule refl)

lemma handle_valid:
  assumes "reqCommand req \<noteq> []" and "2 \<le> length (reqClientIDs req)"
    and "resolveTargets resolve (reqClientIDs req) = Inr ts"
  shows "handlePostMultiClientCommand codec resolve req =
     (200, if reqConcurrent req then map (storedJob codec (reqCommand req)) ts
           else executeSequential codec (reqCommand req) (reqAbortOnErr req) ts)"
  using assms by (simp add: handlePostMultiClientCommand_def executeConcurrently_eq)

text \<open>
  C5: take a valid multi-client request and a client \<open>t\<close> of it to which \<open>run_cmd\<close> is
  dispatched (the mode is concurrent, or \<open>abort_on_error\<close> is off, or every client before
  \<open>t\<close> ended successfully). When sending over the connection of \<open>t\<close> fails with \<open>e\<close>,
  the request is answered with status 200 and the stored multi-client job holds, after the
  jobs of the clients before \<open>t\<close>, the job of \<open>t\<close> with status \<open>failed\<close> and the error
  \<open>failed to send request: e\<close> (followed by the jobs of the later clients unless the
  sequential run aborts there).
\<close>

theorem C5_dispatch_failure_recorded:
  assumes "reqCommand req \<noteq> []" and "2 \<le> length (reqClientIDs req)"
    and "resolveTargets resolve (reqClientIDs req) = Inr (pre @ t # post)"
    and "reqConcurrent req \<or> \<not> reqAbortOnErr req
         \<or> (\<forall>u \<in> set pre. Status (storedJob codec (reqCommand req) u) = JobStatusSuccessful)"
    and "snd (marshalReq codec (newJob (reqCommand req) t)) = None"
    and "sendError codec (reqCommand req) t = Some e"
  shows "handlePostMultiClientCommand codec resolve req =
     (200, map (storedJob codec (reqCommand req)) pre
           @ [(newJob (reqCommand req) t)
                \<lparr>Status := JobStatusFailed, Error := ''failed to send request: '' @ e\<rparr>]
           @ (if \<not> reqConcurrent req \<and> reqAbortOnErr req then []
              else map (storedJob codec (reqCommand req)) post))"
proof -
  let ?cmd = "reqCommand req"
  let ?failed = "(newJob ?cmd t)\<lparr>Status := JobStatusFailed, Error := ''failed to send request: '' @ e\<rparr>"
  note h = handle_valid [OF assms(1,2,3), of codec]
  have s: "storedJob codec ?cmd t = ?failed"
    using assms(5,6) by (rule storedJob_send_error)
  then have ns: "Status (storedJob codec ?cmd t) \<noteq> JobStatusSuccessful" by simp
  show ?thesis
  proof (cases "\<not> reqConcurrent req \<and> reqAbortOnErr req")
    case True
    with assms(4) have ok: "\<forall>u \<in> set pre. Status (storedJob codec ?cmd u) = JobStatusSuccessful"
      by blast
    then have "takeWhile (\<lambda>u. Status (storedJob codec ?cmd u) = JobStatusSuccessful) pre = pre"
      by (simp add: takeWhile_eq_all_conv)
    with executeSequential_abort_at [OF ns, of pre post]
    have "executeSequential codec ?cmd True (pre @ t # post)
        = map (storedJob codec ?cmd) pre @ [storedJob codec ?cmd t]"
      by simp
    with True h s show ?thesis by simp
  next
    case False
    then have "snd (handlePostMultiClientCommand codec resolve req)
        = map (storedJob codec ?cmd) (pre @ t # post)"
      by (auto simp: h executeSequential_no_abort simp del: executeSequential.simps)
    moreover have "fst (handlePostMultiClientCommand codec resolve req) = 200"
      by (simp add: h)
    ultimately show ?thesis using False s by (auto simp: prod_eq_iff)
  qed
qed

lemmas job_defs = jobCodec_def brokenConn_def goodConn_def refusingConn_def target1_def
  target2_def target5_def resolveExample_def abortRequest_def plainRequest_def newJob_def
  sendError_def storedJob_def createAndRunJob_def SendRequestAndGetResponse_def
  handlePostMultiClientCommand_def executeConcurrently_def Let_def

theorem C5_dispatch_failure_recorded_witness:
  "reqCommand plainRequest \<noteq> [] \<and> 2 \<le> length (reqClientIDs plainRequest)
   \<and> resolveTargets resolveExample (reqClientIDs plainRequest) = Inr ([target2] @ target1 # [target2])
   \<and> \<not> reqAbortOnErr plainRequest
   \<and> snd (marshalReq jobCodec (newJob (reqCommand plainRequest) target1)) = None
   \<and> sendError jobCodec (reqCommand plainRequest) target1 = Some ''send fake error''
   \<and> fst (handlePostMultiClientCommand jobCodec resolveExample plainRequest) = 200
   \<and> map JobClientID (snd (handlePostMultiClientCommand jobCodec resolveExample plainRequest))
       = [''client-2'', ''client-1'', ''client-2'']
   \<and> map Status (snd (handlePostMultiClientCommand jobCodec resolveExample plainRequest))
       = [JobStatusSuccessful, JobStatusFailed, JobStatusSuccessful]
   \<and> map Error (snd (handlePostMultiClientCommand jobCodec resolveExample plainRequest))
       = [[], ''failed to send request: send fake error'', []]"
proof -
  have a: "reqCommand plainRequest \<noteq> []" by (simp add: plainRequest_def)
  have b: "2 \<le> length (reqClientIDs plainRequest)" by (simp add: plainRequest_def)
  have c: "resolveTargets resolveExample (reqClientIDs plainRequest)
      = Inr ([target2] @ target1 # [target2])"
    by (simp add: plainRequest_def resolveExample_def)
  have na: "\<not> reqAbortOnErr plainRequest" by (simp add: plainRequest_def)
  then have d: "reqConcurrent plainRequest \<or> \<not> reqAbortOnErr plainRequest
      \<or> (\<forall>u \<in> set [target2]. Status (storedJob jobCodec (reqCommand plainRequest) u)
            = JobStatusSuccessful)"
    by simp
  have m: "snd (marshalReq jobCodec (newJob (reqCommand plainRequest) target1)) = None"
    by (simp add: job_defs)
  have e: "sendError jobCodec (reqCommand plainRequest) target1 = Some ''send fake error''"
    by (simp add: job_defs)
  have s2: "storedJob jobCodec (reqCommand plainRequest) target2 =
      \<lparr>JID = ''jid-2'', JobClientID = ''client-2'', Command = ''/bin/date'',
       Status = JobStatusSuccessful, Error = [], PID = Some 123\<rparr>"
    by (simp add: job_defs)
  have n1: "newJob (reqCommand plainRequest) target1 =
      \<lparr>JID = ''jid-1'', JobClientID = ''client-1'', Command = ''/bin/date'',
       Status = JobStatusRunning, Error = [], PID = None\<rparr>"
    by (simp add: job_defs)
  from C5_dispatch_failure_recorded [OF a b c d m e] na s2 n1
  have "fst (handlePostMultiClientCommand jobCodec resolveExample plainRequest) = 200
    \<and> map JobClientID (snd (handlePostMultiClientCommand jobCodec resolveExample plainRequest))
        = [''client-2'', ''client-1'', ''client-2'']
    \<and> map Status (snd (handlePostMultiClientCommand jobCodec resolveExample plainRequest))
        = [JobStatusSuccessful, JobStatusFailed, JobStatusSuccessful]
    \<and> map Error (snd (handlePostMultiClientCommand jobCodec resolveExample plainRequest))
        = [[], ''failed to send request: send fake error'', []]"
    by simp
  with a b c na m e show ?thesis by simp
qed

text \<open>
  C6: take a valid sequential multi-client command with \<open>abort_on_error\<close> and a client
  \<open>t\<close> of it to which the dispatch fails, for whatever reason
  \<open>SendRequestAndGetResponse\<close> reports (the request cannot be encoded, sending fails, the
  client answers with a failure, or its answer cannot be decoded). Then no job is created
  for a client after \<open>t\<close>: the stored multi-client job holds exactly the jobs of the
  clients up to and including the first one that does not end successfully, which is
  \<open>t\<close> at the latest; when the clients before \<open>t\<close> all end successfully, these are their
  jobs followed by the job of \<open>t\<close>, which has status \<open>failed\<close> and the dispatch error.
\<close>

theorem C6_sequential_abort_stops:
  assumes "reqCommand req \<noteq> []" and "2 \<le> length (reqClientIDs req)"
    and "resolveTargets resolve (reqClientIDs req) = Inr (pre @ t # post)"
    and "\<not> reqConcurrent req" and "reqAbortOnErr req"
    and "snd (SendRequestAndGetResponse codec (targetConn t) ''run_cmd''
                (newJob (reqCommand req) t) True) = Some err"
  shows "handlePostMultiClientCommand codec resolve req =
       (200, map (storedJob codec (reqCommand req))
               (take (Suc (length (takeWhile
                        (\<lambda>u. Status (storedJob codec (reqCommand req) u) = JobStatusSuccessful) pre)))
                  (pre @ [t])))
     \<and> storedJob codec (reqCommand req) t =
         (newJob (reqCommand req) t)\<lparr>Status := JobStatusFailed, Error := errorText err\<rparr>
     \<and> ((\<forall>u \<in> set pre. Status (storedJob codec (reqCommand req) u) = JobStatusSuccessful) \<longrightarrow>
          handlePostMultiClientCommand codec resolve req =
            (200, map (storedJob codec (reqCommand req)) pre
                  @ [(newJob (reqCommand req) t)
                       \<lparr>Status := JobStatusFailed, Error := errorText err\<rparr>]))"
proof (intro conjI impI)
  let ?cmd = "reqCommand req"
  let ?P = "\<lambda>u. Status (storedJob codec ?cmd u) = JobStatusSuccessful"
  show s: "storedJob codec ?cmd t =
      (newJob ?cmd t)\<lparr>Status := JobStatusFailed, Error := errorText err\<rparr>"
    using assms(6) by (rule storedJob_dispatch_error)
  then have ns: "Status (storedJob codec ?cmd t) \<noteq> JobStatusSuccessful" by simp
  have h: "handlePostMultiClientCommand codec resolve req =
      (200, executeSequential codec ?cmd True (pre @ t # post))"
    using handle_valid [OF assms(1,2,3), of codec] assms(4,5) by simp
  show g: "handlePostMultiClientCommand codec resolve req =
      (200, map (storedJob codec ?cmd) (take (Suc (length (takeWhile ?P pre))) (pre @ [t])))"
    using h executeSequential_abort_at [OF ns, of pre post] by simp
  assume "\<forall>u \<in> set pre. Status (storedJob codec ?cmd u) = JobStatusSuccessful"
  then have "takeWhile ?P pre = pre" by (simp add: takeWhile_eq_all_conv)
  with g s show "handlePostMultiClientCommand codec resolve req =
      (200, map (storedJob codec ?cmd) pre
            @ [(newJob ?cmd t)\<lparr>Status := JobStatusFailed, Error := errorText err\<rparr>])"
    by simp
qed

theorem C6_sequential_abort_stops_witness:
  "reqCommand abortRequest \<noteq> [] \<and> 2 \<le> length (reqClientIDs abortRequest)
   \<and> resolveTargets resolveExample (reqClientIDs abortRequest) = Inr ([target2] @ target5 # [target2])
   \<and> \<not> reqConcurrent abortRequest \<and> reqAbortOnErr abortRequest
   \<and> snd (SendRequestAndGetResponse jobCodec (targetConn target5) ''run_cmd''
            (newJob (reqCommand abortRequest) target5) True)
       = Some (ClientError ''client error: fake failure msg'')
   \<and> Status (storedJob jobCodec (reqCommand abortRequest) target2) = JobStatusSuccessful
   \<and> fst (handlePostMultiClientCommand jobCodec resolveExample abortRequest) = 200
   \<and> map JobClientID (snd (handlePostMultiClientCommand jobCodec resolveExample abortRequest))
       = [''client-2'', ''client-5'']
   \<and> map Status (snd (handlePostMultiClientCommand jobCodec resolveExample abortRequest))
       = [JobStatusSuccessful, JobStatusFailed]
   \<and> map Error (snd (handlePostMultiClientCommand jobCodec resolveExample abortRequest))
       = [[], ''client error: fake failure msg'']"
proof -
  have a: "reqCommand abortRequest \<noteq> []" by (simp add: abortRequest_def)
  have b: "2 \<le> length (reqClientIDs abortRequest)" by (simp add: abortRequest_def)
  have c: "resolveTargets resolveExample (reqClientIDs abortRequest)
      = Inr ([target2] @ target5 # [target2])"
    by (simp add: abortRequest_def resolveExample_def)
  have d: "\<not> reqConcurrent abortRequest" by (simp add: abortRequest_def)
  have e: "reqAbortOnErr abortRequest" by (simp add: abortRequest_def)
  have f: "snd (SendRequestAndGetResponse jobCodec (targetConn target5) ''run_cmd''
                 (newJob (reqCommand abortRequest) target5) True)
      = Some (ClientError ''client error: fake failure msg'')"
    by (simp add: job_defs)
  have s2: "storedJob jobCodec (reqCommand abortRequest) target2 =
      \<lparr>JID = ''jid-2'', JobClientID = ''client-2'', Command = ''/bin/date'',
       Status = JobStatusSuccessful, Error = [], PID = Some 123\<rparr>"
    by (simp add: job_defs)
  then have ok2: "Status (storedJob jobCodec (reqCommand abortRequest) target2) = JobStatusSuccessful"
    by simp
  then have all: "\<forall>u \<in> set [target2]. Status (storedJob jobCodec (reqCommand abortRequest) u)
      = JobStatusSuccessful" by simp
  have n5: "newJob (reqCommand abortRequest) target5 =
      \<lparr>JID = ''jid-5'', JobClientID = ''client-5'', Command = ''/bin/date'',
       Status = JobStatusRunning, Error = [], PID = None\<rparr>"
    by (simp add: job_defs)
  from C6_sequential_abort_stops [OF a b c d e f] all
  have "handlePostMultiClientCommand jobCodec resolveExample abortRequest =
      (200, map (storedJob jobCodec (reqCommand abortRequest)) [target2]
            @ [(newJob (reqCommand abortRequest) target5)
                 \<lparr>Status := JobStatusFailed,
                    Error := errorText (ClientError ''client error: fake failure msg'')\<rparr>])"
    by blast
  with s2 n5
  have "fst (handlePostMultiClientCommand jobCodec resolveExample abortRequest) = 200
    \<and> map JobClientID (snd (handlePostMultiClientCommand jobCodec resolveExample abortRequest))
        = [''client-2'', ''client-5'']
    \<and> map Status (snd (handlePostMultiClientCommand jobCodec resolveExample abortRequest))
        = [JobStatusSuccessful, JobStatusFailed]
    \<and> map Error (snd (handlePostMultiClientCommand jobCodec resolveExample abortRequest))
        = [[], ''client error: fake failure msg'']"
    by simp
  with a b c d e f ok2 show ?thesis by simp
qed

section \<open>Properties of deleting a client auth\<close>






end
